theory Spec2Isabelle
  imports Main "HOL-Library.Sublist" "HOL-Library.Char_ord" "HOL-Library.List_Lexorder"
begin

section \<open>Reco-Buddy: the reconciliation engine of \<^verbatim>\<open>RecoBuddy\<close>\<close>

text \<open>
  The development embeds the class \<^verbatim>\<open>RecoBuddy\<close> of
  \<^verbatim>\<open>deepseek_python_20250808_621b0f.py\<close>: \<^verbatim>\<open>load_data\<close>,
  \<^verbatim>\<open>fuzzy_match_stocks\<close> and \<^verbatim>\<open>match_records\<close>.

  Conventions of the embedding.
  \<^item> A pandas cell that may be NaN or NaT is an \<open>option\<close>; \<open>None\<close> is the missing value.
    Numbers are exact integers, timestamps are integers counting seconds.
  \<^item> Stock names are strings, as the specification types them (\<^verbatim>\<open>stock_name_raw\<close>,
    \<^verbatim>\<open>stock_name_key\<close>). A table with a blank name cell is not a value of \<open>frame\<close>;
    on such a table \<^verbatim>\<open>len(name1)\<close> (line 169) raises \<^verbatim>\<open>TypeError\<close> at level 3.
    The datatype \<open>error\<close> lists the exceptions of runs on tables of the embedding, not
    every exception of the program.
  \<^item> A data frame is its list of column labels together with its list of rows. A row keeps
    a field for every column the engine knows; the value of a field whose column is not
    among the labels is never read: every read of a column goes through \<open>need\<close>, which
    raises \<open>KeyError\<close> as pandas does.
  \<^item> Exceptions are values: a function that can raise returns \<open>error + 'a\<close>.
  \<^item> \<^verbatim>\<open>fuzz.token_set_ratio\<close> belongs to the library fuzzywuzzy; it is the
    parameter \<open>token_set_ratio\<close> of every function that reaches it.
  \<^item> Line 159 of the source lacks its closing parenthesis; it is read as
    \<^verbatim>\<open>range(1, len(self.ais_data) + 1)\<close>, as line 160 is written.
\<close>

subsection \<open>Errors\<close>

datatype error = KeyError string | AttributeError string

definition bindE :: "error + 'a \<Rightarrow> ('a \<Rightarrow> error + 'b) \<Rightarrow> error + 'b" where
  "bindE m f = (case m of Inl e \<Rightarrow> Inl e | Inr x \<Rightarrow> f x)"

subsection \<open>\<^verbatim>\<open>fuzzy_match_stocks\<close>\<close>

text \<open>Python's \<^verbatim>\<open>substring in name2\<close> on strings: a scan of \<open>name2\<close> for a position
  where \<open>substring\<close> starts.\<close>

fun str_in :: "string \<Rightarrow> string \<Rightarrow> bool" where
  "str_in s [] = (s = [])"
| "str_in s (c # cs) = (prefix s (c # cs) \<or> str_in s cs)"

text \<open>The loop \<^verbatim>\<open>for i in range(len(name1) - 4)\<close>; \<open>True\<close> stands for
  \<^verbatim>\<open>return 90\<close>. The slice \<^verbatim>\<open>name1[i:i+5]\<close> is \<open>take 5 (drop i name1)\<close>.\<close>

fun substring_loop :: "string \<Rightarrow> string \<Rightarrow> nat list \<Rightarrow> bool" where
  "substring_loop name1 name2 [] = False"
| "substring_loop name1 name2 (i # rest) =
     (if str_in (take 5 (drop i name1)) name2 then True
      else substring_loop name1 name2 rest)"

definition abbreviations :: "(string \<times> string list) list" where
  "abbreviations =
     [(''RELIANCE'', [''RIL'', ''RELIANCE IND'', ''RELIANCE INDUSTRIES'']),
      (''MAHARASHTRA BANK'', [''MAHABANK'', ''BANK OF MAHARASHTRA'']),
      (''HDFC BANK'', [''HDFCBANK'']),
      (''LIC'', [''LIFE INSURANCE CORP''])]"

text \<open>The loop over \<^verbatim>\<open>abbreviations.items()\<close>; \<open>True\<close> stands for
  \<^verbatim>\<open>return 95\<close>.\<close>

fun abbreviation_loop :: "(string \<times> string list) list \<Rightarrow> string \<Rightarrow> string \<Rightarrow> bool" where
  "abbreviation_loop [] name1 name2 = False"
| "abbreviation_loop ((key, vals) # rest) name1 name2 =
     (if name1 = key \<and> name2 \<in> set vals then True
      else if name2 = key \<and> name1 \<in> set vals then True
      else abbreviation_loop rest name1 name2)"

definition fuzzy_match_stocks :: "(string \<Rightarrow> string \<Rightarrow> int) \<Rightarrow> string \<Rightarrow> string \<Rightarrow> int" where
  "fuzzy_match_stocks token_set_ratio name1 name2 =
     (if name1 = name2 then 100
      else if 5 \<le> length name1 \<and> 5 \<le> length name2 \<and>
              substring_loop name1 name2 [0..<length name1 - 4] then 90
      else if abbreviation_loop abbreviations name1 name2 then 95
      else token_set_ratio name1 name2)"

subsection \<open>The scoring tiers as the specification words them\<close>

text \<open>Tier 2: both names have length at least 5 and some 5-character contiguous substring
  of \<open>a\<close> occurs anywhere in \<open>b\<close>.\<close>

definition shared_substring_tier :: "string \<Rightarrow> string \<Rightarrow> bool" where
  "shared_substring_tier a b \<longleftrightarrow>
     5 \<le> length a \<and> 5 \<le> length b \<and> (\<exists>s. length s = 5 \<and> sublist s a \<and> sublist s b)"

text \<open>Tier 3: one name is a canonical key of the table and the other is in that key's
  alias set, in either order.\<close>

definition abbreviation_tier :: "string \<Rightarrow> string \<Rightarrow> bool" where
  "abbreviation_tier a b \<longleftrightarrow>
     (\<exists>(key, vals) \<in> set abbreviations.
        (a = key \<and> b \<in> set vals) \<or> (b = key \<and> a \<in> set vals))"

definition score_spec :: "(string \<Rightarrow> string \<Rightarrow> int) \<Rightarrow> string \<Rightarrow> string \<Rightarrow> int" where
  "score_spec fallback a b =
     (if a = b then 100
      else if shared_substring_tier a b then 90
      else if abbreviation_tier a b then 95
      else fallback a b)"

text \<open>Python's \<^verbatim>\<open>str.strip()\<close> on ASCII strings.\<close>

definition is_space :: "char \<Rightarrow> bool" where
  "is_space c \<longleftrightarrow> of_char c \<in> {9, 10, 11, 12, 13, 28, 29, 30, 31, 32 :: nat}"

definition str_strip :: "string \<Rightarrow> string" where
  "str_strip s = rev (dropWhile is_space (rev (dropWhile is_space s)))"

subsection \<open>The library's ratio on the difflib backend\<close>

text \<open>
  The fallback \<^verbatim>\<open>fuzz.token_set_ratio\<close> is not code of the repository. What follows
  is modelled from the published sources of fuzzywuzzy 0.18 (\<^verbatim>\<open>fuzz.ratio\<close>,
  \<^verbatim>\<open>fuzz.token_set_ratio\<close>, \<^verbatim>\<open>utils.full_process\<close>) and of Python's
  \<^verbatim>\<open>difflib.SequenceMatcher\<close>, the matcher fuzzywuzzy uses when python-Levenshtein
  is not installed: ASCII strings of fewer than 200 characters (difflib's automatic junk
  heuristic does nothing below that length), with exact arithmetic where the library
  divides floats. It serves to run the score of the source on concrete names; no theorem
  about the source's own code rests on it.
\<close>

fun common_prefix_length :: "string \<Rightarrow> string \<Rightarrow> nat" where
  "common_prefix_length (x # xs) (y # ys) =
     (if x = y then Suc (common_prefix_length xs ys) else 0)"
| "common_prefix_length xs ys = 0"

text \<open>\<^verbatim>\<open>find_longest_match\<close>: of all longest common blocks the one that starts
  earliest in \<open>a\<close>, and of those the one that starts earliest in \<open>b\<close>, as
  \<open>(i, j, size)\<close>; \<open>(0, 0, 0)\<close> when there is none.\<close>

definition find_longest_match :: "string \<Rightarrow> string \<Rightarrow> nat \<times> nat \<times> nat" where
  "find_longest_match a b =
     foldl (\<lambda>(bi, bj, bk) (i, j).
              let k = common_prefix_length (drop i a) (drop j b)
              in if k > bk then (i, j, k) else (bi, bj, bk))
       (0, 0, 0) (List.product [0..<length a] [0..<length b])"

text \<open>The total size of \<^verbatim>\<open>get_matching_blocks\<close>: the longest block, then the same
  to its left and to its right. A block that is found lies within both strings; the test
  is written out so that the recursion visibly descends.\<close>

function matching_size :: "string \<Rightarrow> string \<Rightarrow> nat" where
  "matching_size a b =
     (case find_longest_match a b of
        (i, j, k) \<Rightarrow>
          if k = 0 \<or> length a < i + k \<or> length b < j + k then 0
          else matching_size (take i a) (take j b) + k +
               matching_size (drop (i + k) a) (drop (j + k) b))"
  by pat_completeness auto
termination
  by (relation "measure (\<lambda>(a, b). length a + length b)") auto

text \<open>Python's \<^verbatim>\<open>round\<close> of the quotient \<open>n / d\<close>: to the nearest integer, a half to
  the even one.\<close>

definition round_half_even :: "int \<Rightarrow> int \<Rightarrow> int" where
  "round_half_even n d =
     (let q = n div d; r = n mod d
      in if 2 * r < d then q else if d < 2 * r then q + 1 else if even q then q else q + 1)"

text \<open>\<^verbatim>\<open>fuzz.ratio\<close>: 100 on equal strings, 0 when one is empty, else
  \<^verbatim>\<open>round(100 * 2.0 * M / T)\<close>.\<close>

definition difflib_ratio :: "string \<Rightarrow> string \<Rightarrow> int" where
  "difflib_ratio s1 s2 =
     (if s1 = s2 then 100
      else if s1 = [] \<or> s2 = [] then 0
      else round_half_even (200 * int (matching_size s1 s2)) (int (length s1 + length s2)))"

definition lower_char :: "char \<Rightarrow> char" where
  "lower_char c =
     (case map_of (zip ''ABCDEFGHIJKLMNOPQRSTUVWXYZ'' ''abcdefghijklmnopqrstuvwxyz'') c of
        Some l \<Rightarrow> l
      | None \<Rightarrow> c)"

definition is_word_char :: "char \<Rightarrow> bool" where
  "is_word_char c \<longleftrightarrow>
     c \<in> set ''abcdefghijklmnopqrstuvwxyzABCDEFGHIJKLMNOPQRSTUVWXYZ0123456789_''"

text \<open>\<^verbatim>\<open>utils.full_process\<close> with \<^verbatim>\<open>force_ascii=True\<close>: characters outside ASCII
  are dropped, every character that is not a letter, a digit or an underscore becomes a
  space, the string is lower-cased and stripped.\<close>

definition full_process :: "string \<Rightarrow> string" where
  "full_process s =
     str_strip (map (\<lambda>c. if is_word_char c then lower_char c else CHR '' '')
       (filter (\<lambda>c. of_char c < (128 :: nat)) s))"

text \<open>\<^verbatim>\<open>p.split()\<close> of a processed string, whose only whitespace is the space.\<close>

definition tokens :: "string \<Rightarrow> string list" where
  "tokens p =
     filter (\<lambda>w. w \<noteq> [])
       (foldr (\<lambda>c acc. if c = CHR '' '' then [] # acc else (c # hd acc) # tl acc) p [[]])"

fun join_space :: "string list \<Rightarrow> string" where
  "join_space [] = []"
| "join_space [w] = w"
| "join_space (w # v # rest) = w @ '' '' @ join_space (v # rest)"

text \<open>\<^verbatim>\<open>fuzz.token_set_ratio\<close>: the best of three ratios between the sorted common
  tokens, and the common tokens followed by the sorted tokens only in the one string and
  only in the other.\<close>

definition difflib_token_set_ratio :: "string \<Rightarrow> string \<Rightarrow> int" where
  "difflib_token_set_ratio s1 s2 =
     (let p1 = full_process s1; p2 = full_process s2
      in if p1 = [] \<or> p2 = [] then 0
         else
           (let tokens1 = sort (remdups (tokens p1));
                tokens2 = sort (remdups (tokens p2));
                sorted_sect = join_space (filter (\<lambda>w. w \<in> set tokens2) tokens1);
                sorted_1to2 = join_space (filter (\<lambda>w. w \<notin> set tokens2) tokens1);
                sorted_2to1 = join_space (filter (\<lambda>w. w \<notin> set tokens1) tokens2);
                combined_1to2 = str_strip (sorted_sect @ '' '' @ sorted_1to2);
                combined_2to1 = str_strip (sorted_sect @ '' '' @ sorted_2to1)
            in max (difflib_ratio sorted_sect combined_1to2)
                 (max (difflib_ratio sorted_sect combined_2to1)
                    (difflib_ratio combined_1to2 combined_2to1))))"

subsection \<open>Data frames\<close>

text \<open>One row of either input table. \<open>ID\<close> and \<open>stock_name_clean\<close> are the columns
  \<^verbatim>\<open>load_data\<close> adds. The field \<open>ID\<close> stays in a row after the column
  \<^verbatim>\<open>'ID'\<close> is dropped from the labels of its frame: it is then only the identity
  of the row, by which the theorems speak about it.\<close>

record row =
  ID :: nat
  stock_name :: string
  stock_name_clean :: string
  quantity :: "int option"
  sales_value :: "int option"
  sale_date :: "int option"
  purchase_value :: "int option"
  purchase_date :: "int option"

record frame =
  columns :: "string list"
  rows :: "row list"

text \<open>\<^verbatim>\<open>df[c]\<close>, \<^verbatim>\<open>row[c]\<close>: reading a column that is not a label raises
  \<^verbatim>\<open>KeyError(c)\<close>.\<close>

definition need :: "string list \<Rightarrow> string \<Rightarrow> error + unit" where
  "need cols c = (if c \<in> set cols then Inr () else Inl (KeyError c))"

text \<open>Several reads, in the order the source evaluates them.\<close>

fun needs :: "(string list \<times> string) list \<Rightarrow> error + unit" where
  "needs [] = Inr ()"
| "needs ((cols, c) # rest) = (case need cols c of Inl e \<Rightarrow> Inl e | Inr _ \<Rightarrow> needs rest)"

text \<open>\<^verbatim>\<open>row.get(c, None)\<close>: the cell, or \<open>None\<close> where the column is absent.\<close>

definition get_or_none :: "string list \<Rightarrow> string \<Rightarrow> 'a option \<Rightarrow> 'a option" where
  "get_or_none cols c cell = (if c \<in> set cols then cell else None)"

text \<open>\<^verbatim>\<open>df[c] = ...\<close>: an existing column is overwritten, a new one is appended.\<close>

definition set_column :: "string \<Rightarrow> string list \<Rightarrow> string list" where
  "set_column c cols = (if c \<in> set cols then cols else cols @ [c])"

text \<open>\<^verbatim>\<open>df.drop(columns=cs)\<close>: a label that is not there raises \<open>KeyError\<close>.\<close>

definition drop_columns :: "string list \<Rightarrow> string list \<Rightarrow> error + string list" where
  "drop_columns cs cols =
     (case needs (map (Pair cols) cs) of
        Inl e \<Rightarrow> Inl e
      | Inr _ \<Rightarrow> Inr (filter (\<lambda>c. c \<notin> set cs) cols))"

subsection \<open>\<^verbatim>\<open>load_data\<close>\<close>

text \<open>\<^verbatim>\<open>.str.upper().str.strip()\<close> on ASCII names.\<close>

definition upper_char :: "char \<Rightarrow> char" where
  "upper_char c =
     (case map_of (zip ''abcdefghijklmnopqrstuvwxyz'' ''ABCDEFGHIJKLMNOPQRSTUVWXYZ'') c of
        Some u \<Rightarrow> u
      | None \<Rightarrow> c)"

definition clean_name :: "string \<Rightarrow> string" where
  "clean_name s = str_strip (map upper_char s)"

text \<open>\<^verbatim>\<open>df['ID'] = range(1, len(df) + 1)\<close>.\<close>

definition assign_ids :: "row list \<Rightarrow> row list" where
  "assign_ids rs = map (\<lambda>(i, r). r\<lparr>ID := i\<rparr>) (zip [1..<length rs + 1] rs)"

text \<open>What \<^verbatim>\<open>load_data\<close> does to one table once its name column is known to be
  there. The cells arrive parsed (\<^verbatim>\<open>pd.to_datetime\<close> and
  \<^verbatim>\<open>pd.to_numeric\<close> with \<^verbatim>\<open>errors='coerce'\<close> give a value or the
  missing value and are guarded by \<^verbatim>\<open>if col in df.columns\<close>), so the two
  conversion loops change nothing here.\<close>

definition load_side :: "frame \<Rightarrow> frame" where
  "load_side df =
     \<lparr>columns = set_column ''ID'' (set_column ''Stock Name Clean'' (columns df)),
      rows = assign_ids (map (\<lambda>r. r\<lparr>stock_name_clean := clean_name (stock_name r)\<rparr>) (rows df))\<rparr>"

definition load_data :: "frame \<Rightarrow> frame \<Rightarrow> error + (frame \<times> frame)" where
  "load_data ais_df cg_df =
     bindE (need (columns ais_df) ''Stock Name (AIS)'') (\<lambda>_.
     bindE (need (columns cg_df) ''Stock Name (CG)'') (\<lambda>_.
       Inr (load_side ais_df, load_side cg_df)))"

subsection \<open>Match records and the matcher's state\<close>

text \<open>The label \<^verbatim>\<open>'Match Type'\<close>: the level, with the score the f-strings of
  levels 3 and 4 print.\<close>

datatype match_type = Level1 | Level2 | Level3 int | Level4 int

datatype date_cell = Date "int option" | Multiple

text \<open>One dictionary appended to \<^verbatim>\<open>matches\<close>. The last two fields are not in the
  source: they record the \<open>ID\<close>s of the rows the match takes from each side.\<close>

record match_record =
  Match_ID :: nat
  Match_Type :: match_type
  Stock_Name_AIS :: string
  Stock_Name_CG :: string
  Quantity_AIS :: "int option"
  Quantity_CG :: "int option"
  Sales_Value_AIS :: "int option"
  Sales_Value_CG :: "int option"
  Sale_Date_AIS :: date_cell
  Sale_Date_CG :: date_cell
  Purchase_Value_AIS :: "int option"
  Purchase_Value_CG :: "int option"
  Purchase_Date_AIS :: date_cell
  Purchase_Date_CG :: date_cell
  ais_ids :: "nat list"
  cg_ids :: "nat list"

record mstate =
  unmatched_ais :: "row list"
  unmatched_cg :: "row list"
  matches :: "match_record list"
  match_id :: nat

text \<open>Equality of two numeric cells: NaN equals nothing.\<close>

definition num_eq :: "int option \<Rightarrow> int option \<Rightarrow> bool" where
  "num_eq x y = (case x of None \<Rightarrow> False | Some u \<Rightarrow> (case y of None \<Rightarrow> False | Some v \<Rightarrow> u = v))"

definition one_day :: int where
  "one_day = 86400"

text \<open>\<^verbatim>\<open>abs(d1 - d2) <= pd.Timedelta(days=1)\<close>: false when either is NaT.\<close>

definition within_one_day :: "int option \<Rightarrow> int option \<Rightarrow> bool" where
  "within_one_day x y =
     (case x of None \<Rightarrow> False | Some u \<Rightarrow> (case y of None \<Rightarrow> False | Some v \<Rightarrow> \<bar>u - v\<bar> \<le> one_day))"

text \<open>The dictionary literal of levels 1 to 3 (lines 229-244, 264-279, 303-318): its
  reads, in order, and its value.\<close>

definition pair_reads :: "string list \<Rightarrow> string list \<Rightarrow> error + unit" where
  "pair_reads ca cc =
     needs [(ca, ''Stock Name (AIS)''), (cc, ''Stock Name (CG)''),
            (ca, ''Quantity (AIS)''), (cc, ''Quantity (CG)''),
            (ca, ''Sales Value (AIS)''), (cc, ''Sales Value (CG)''),
            (ca, ''Sale Date (AIS)''), (cc, ''Sale Date (CG)'')]"

definition pair_record ::
  "string list \<Rightarrow> string list \<Rightarrow> nat \<Rightarrow> match_type \<Rightarrow> row \<Rightarrow> row \<Rightarrow> match_record" where
  "pair_record ca cc mid ty ais_row cg_row =
     \<lparr>Match_ID = mid, Match_Type = ty,
      Stock_Name_AIS = stock_name ais_row, Stock_Name_CG = stock_name cg_row,
      Quantity_AIS = quantity ais_row, Quantity_CG = quantity cg_row,
      Sales_Value_AIS = sales_value ais_row, Sales_Value_CG = sales_value cg_row,
      Sale_Date_AIS = Date (sale_date ais_row), Sale_Date_CG = Date (sale_date cg_row),
      Purchase_Value_AIS = get_or_none ca ''Purchase Value (AIS)'' (purchase_value ais_row),
      Purchase_Value_CG = get_or_none cc ''Purchase Value (CG)'' (purchase_value cg_row),
      Purchase_Date_AIS = Date (get_or_none ca ''Purchase Date (AIS)'' (purchase_date ais_row)),
      Purchase_Date_CG = Date (get_or_none cc ''Purchase Date (CG)'' (purchase_date cg_row)),
      ais_ids = [ID ais_row], cg_ids = [ID cg_row]\<rparr>"

text \<open>\<^verbatim>\<open>df[df['ID'] != i]\<close> and \<^verbatim>\<open>df[~df['ID'].isin(ids)]\<close>.\<close>

definition remove_id :: "nat \<Rightarrow> row list \<Rightarrow> row list" where
  "remove_id i rs = filter (\<lambda>r. ID r \<noteq> i) rs"

definition remove_ids :: "nat list \<Rightarrow> row list \<Rightarrow> row list" where
  "remove_ids ids rs = filter (\<lambda>r. ID r \<notin> set ids) rs"

text \<open>The tail of a hit at levels 1 to 3 (lines 245-250, 280-284, 319-323): the record
  is appended, both pools shrink, the match is counted.\<close>

definition with_pair ::
  "string list \<Rightarrow> string list \<Rightarrow> match_type \<Rightarrow> row \<Rightarrow> row \<Rightarrow> mstate \<Rightarrow> mstate" where
  "with_pair ca cc ty ais_row cg_row st =
     st\<lparr>matches := matches st @ [pair_record ca cc (match_id st) ty ais_row cg_row],
        unmatched_ais := remove_id (ID ais_row) (unmatched_ais st),
        unmatched_cg := remove_id (ID cg_row) (unmatched_cg st),
        match_id := match_id st + 1\<rparr>"

definition take_pair ::
  "string list \<Rightarrow> string list \<Rightarrow> match_type \<Rightarrow> row \<Rightarrow> row \<Rightarrow> mstate \<Rightarrow> error + mstate" where
  "take_pair ca cc ty ais_row cg_row st =
     bindE (pair_reads ca cc) (\<lambda>_.
     bindE (needs [(ca, ''ID''), (cc, ''ID'')]) (\<lambda>_.
       Inr (with_pair ca cc ty ais_row cg_row st)))"

subsection \<open>\<^verbatim>\<open>match_records\<close>, levels 1 to 3\<close>

text \<open>A \<^verbatim>\<open>for\<close> loop over a list fixed when the loop starts
  (\<^verbatim>\<open>iterrows()\<close> of the frame the variable held then; a \<^verbatim>\<open>groupby\<close>
  object), threading the state and stopping at the first exception.\<close>

fun for_each :: "('a \<Rightarrow> 's \<Rightarrow> error + 's) \<Rightarrow> 'a list \<Rightarrow> 's \<Rightarrow> error + 's" where
  "for_each body [] st = Inr st"
| "for_each body (x # xs) st =
     (case body x st of Inl e \<Rightarrow> Inl e | Inr st' \<Rightarrow> for_each body xs st')"

text \<open>The boolean mask of level 1 (lines 217-221), row by row.\<close>

definition level1_mask :: "row \<Rightarrow> row \<Rightarrow> bool" where
  "level1_mask ais_row cg_row \<longleftrightarrow>
     stock_name_clean cg_row = stock_name_clean ais_row \<and>
     num_eq (quantity cg_row) (quantity ais_row) \<and>
     within_one_day (sale_date cg_row) (sale_date ais_row)"

definition level1_step :: "string list \<Rightarrow> string list \<Rightarrow> row \<Rightarrow> mstate \<Rightarrow> error + mstate" where
  "level1_step ca cc ais_row st =
     bindE (need ca ''Sale Date (AIS)'') (\<lambda>_.
       if sale_date ais_row = None then Inr st
       else
         bindE (needs [(cc, ''Stock Name Clean''), (ca, ''Stock Name Clean''),
                       (cc, ''Quantity (CG)''), (ca, ''Quantity (AIS)''),
                       (cc, ''Sale Date (CG)''), (ca, ''Sale Date (AIS)'')]) (\<lambda>_.
           case filter (level1_mask ais_row) (unmatched_cg st) of
             [] \<Rightarrow> Inr st
           | cg_row # _ \<Rightarrow> take_pair ca cc Level1 ais_row cg_row st))"

definition level1 :: "string list \<Rightarrow> string list \<Rightarrow> mstate \<Rightarrow> error + mstate" where
  "level1 ca cc st = for_each (level1_step ca cc) (unmatched_ais st) st"

text \<open>The mask of level 2 (lines 254-257).\<close>

definition level2_mask :: "row \<Rightarrow> row \<Rightarrow> bool" where
  "level2_mask ais_row cg_row \<longleftrightarrow>
     stock_name_clean cg_row = stock_name_clean ais_row \<and>
     num_eq (quantity cg_row) (quantity ais_row)"

definition level2_step :: "string list \<Rightarrow> string list \<Rightarrow> row \<Rightarrow> mstate \<Rightarrow> error + mstate" where
  "level2_step ca cc ais_row st =
     bindE (needs [(cc, ''Stock Name Clean''), (ca, ''Stock Name Clean''),
                   (cc, ''Quantity (CG)''), (ca, ''Quantity (AIS)'')]) (\<lambda>_.
       case filter (level2_mask ais_row) (unmatched_cg st) of
         [] \<Rightarrow> Inr st
       | cg_row # _ \<Rightarrow> take_pair ca cc Level2 ais_row cg_row st)"

definition level2 :: "string list \<Rightarrow> string list \<Rightarrow> mstate \<Rightarrow> error + mstate" where
  "level2 ca cc st = for_each (level2_step ca cc) (unmatched_ais st) st"

text \<open>The inner loop of level 3 (lines 292-300) over the CG pool, carrying
  \<open>(best_score, best_match)\<close>. The conjunction short-circuits: the quantities are read
  only when the score is above 80.\<close>

fun best_fuzzy_match ::
  "(string \<Rightarrow> string \<Rightarrow> int) \<Rightarrow> string list \<Rightarrow> string list \<Rightarrow> row \<Rightarrow> row list \<Rightarrow>
   int \<times> row option \<Rightarrow> error + (int \<times> row option)" where
  "best_fuzzy_match token_set_ratio ca cc ais_row [] best = Inr best"
| "best_fuzzy_match token_set_ratio ca cc ais_row (cg_row # rest) (best_score, best_match) =
     (case needs [(ca, ''Stock Name Clean''), (cc, ''Stock Name Clean'')] of
        Inl e \<Rightarrow> Inl e
      | Inr _ \<Rightarrow>
         (let score = fuzzy_match_stocks token_set_ratio
                        (stock_name_clean ais_row) (stock_name_clean cg_row)
          in if score > 80 then
               (case needs [(cc, ''Quantity (CG)''), (ca, ''Quantity (AIS)'')] of
                  Inl e \<Rightarrow> Inl e
                | Inr _ \<Rightarrow>
                   if num_eq (quantity cg_row) (quantity ais_row) \<and> score > best_score
                   then best_fuzzy_match token_set_ratio ca cc ais_row rest (score, Some cg_row)
                   else best_fuzzy_match token_set_ratio ca cc ais_row rest
                          (best_score, best_match))
             else best_fuzzy_match token_set_ratio ca cc ais_row rest (best_score, best_match)))"

definition level3_step ::
  "(string \<Rightarrow> string \<Rightarrow> int) \<Rightarrow> string list \<Rightarrow> string list \<Rightarrow> row \<Rightarrow> mstate \<Rightarrow>
   error + mstate" where
  "level3_step token_set_ratio ca cc ais_row st =
     bindE (best_fuzzy_match token_set_ratio ca cc ais_row (unmatched_cg st) (0, None))
       (\<lambda>(best_score, best_match).
          case best_match of
            None \<Rightarrow> Inr st
          | Some cg_row \<Rightarrow> take_pair ca cc (Level3 best_score) ais_row cg_row st)"

definition level3 ::
  "(string \<Rightarrow> string \<Rightarrow> int) \<Rightarrow> string list \<Rightarrow> string list \<Rightarrow> mstate \<Rightarrow> error + mstate" where
  "level3 token_set_ratio ca cc st =
     for_each (level3_step token_set_ratio ca cc) (unmatched_ais st) st"

subsection \<open>\<^verbatim>\<open>match_records\<close>, level 4\<close>

text \<open>\<^verbatim>\<open>groupby('Stock Name Clean')\<close>: the keys in sorted order, each group the rows
  of its key in frame order.\<close>

definition group_keys :: "row list \<Rightarrow> string list" where
  "group_keys rs = sort (remdups (map stock_name_clean rs))"

definition get_group :: "string \<Rightarrow> row list \<Rightarrow> row list" where
  "get_group k rs = filter (\<lambda>r. stock_name_clean r = k) rs"

text \<open>\<^verbatim>\<open>Series.sum()\<close> skips missing cells.\<close>

definition sum_skipna :: "int option list \<Rightarrow> int" where
  "sum_skipna cells = sum_list (map (\<lambda>x. case x of None \<Rightarrow> 0 | Some v \<Rightarrow> v) cells)"

text \<open>\<^verbatim>\<open>Series.unique()\<close> keeps first occurrences in order;
  \<^verbatim>\<open>', '.join\<close>.\<close>

definition unique :: "'a list \<Rightarrow> 'a list" where
  "unique xs = rev (remdups (rev xs))"

fun join_names :: "string list \<Rightarrow> string" where
  "join_names [] = []"
| "join_names [x] = x"
| "join_names (x # y # rest) = x @ '', '' @ join_names (y # rest)"

text \<open>The loop over \<^verbatim>\<open>cg_groups.groups.keys()\<close> (lines 335-339), carrying
  \<open>(best_score, cg_match_name)\<close>.\<close>

fun best_cg_group ::
  "(string \<Rightarrow> string \<Rightarrow> int) \<Rightarrow> string \<Rightarrow> string list \<Rightarrow> int \<times> string option \<Rightarrow>
   int \<times> string option" where
  "best_cg_group token_set_ratio stock [] best = best"
| "best_cg_group token_set_ratio stock (cg_stock # rest) (best_score, cg_match_name) =
     (let score = fuzzy_match_stocks token_set_ratio stock cg_stock
      in if score > 85 \<and> score > best_score
         then best_cg_group token_set_ratio stock rest (score, Some cg_stock)
         else best_cg_group token_set_ratio stock rest (best_score, cg_match_name))"

text \<open>\<^verbatim>\<open>group.get(c, 0).sum()\<close> (lines 361-362): where the column is absent,
  \<^verbatim>\<open>get\<close> gives the integer 0, which has no attribute \<^verbatim>\<open>sum\<close>.\<close>

definition get_or_zero_sum :: "string list \<Rightarrow> string \<Rightarrow> int option list \<Rightarrow> error + int" where
  "get_or_zero_sum cols c cells =
     (if c \<in> set cols then Inr (sum_skipna cells) else Inl (AttributeError ''sum''))"

definition group_record ::
  "nat \<Rightarrow> int \<Rightarrow> row list \<Rightarrow> row list \<Rightarrow> int \<Rightarrow> int \<Rightarrow> match_record" where
  "group_record mid best_score ais_group cg_group pv_ais pv_cg =
     \<lparr>Match_ID = mid, Match_Type = Level4 best_score,
      Stock_Name_AIS = join_names (unique (map stock_name ais_group)),
      Stock_Name_CG = join_names (unique (map stock_name cg_group)),
      Quantity_AIS = Some (sum_skipna (map quantity ais_group)),
      Quantity_CG = Some (sum_skipna (map quantity cg_group)),
      Sales_Value_AIS = Some (sum_skipna (map sales_value ais_group)),
      Sales_Value_CG = Some (sum_skipna (map sales_value cg_group)),
      Sale_Date_AIS = Multiple, Sale_Date_CG = Multiple,
      Purchase_Value_AIS = Some pv_ais, Purchase_Value_CG = Some pv_cg,
      Purchase_Date_AIS = Multiple, Purchase_Date_CG = Multiple,
      ais_ids = map ID ais_group, cg_ids = map ID cg_group\<rparr>"

text \<open>The tail of a hit at level 4 (lines 366-371).\<close>

definition with_groups :: "match_record \<Rightarrow> mstate \<Rightarrow> mstate" where
  "with_groups m st =
     st\<lparr>matches := matches st @ [m],
        unmatched_ais := remove_ids (ais_ids m) (unmatched_ais st),
        unmatched_cg := remove_ids (cg_ids m) (unmatched_cg st),
        match_id := match_id st + 1\<rparr>"

text \<open>The body of the loop over \<^verbatim>\<open>ais_groups\<close> (lines 330-371). Both
  \<^verbatim>\<open>groupby\<close> objects were built before the loop, from the frames
  \<open>ais_snap\<close> and \<open>cg_snap\<close> that the two variables held then; the loop rebinds the
  variables, not these frames. \<^verbatim>\<open>if cg_match_name:\<close> is false for \<open>None\<close> and for
  the empty string.\<close>

definition level4_step ::
  "(string \<Rightarrow> string \<Rightarrow> int) \<Rightarrow> string list \<Rightarrow> string list \<Rightarrow> row list \<Rightarrow> row list \<Rightarrow>
   string \<Rightarrow> mstate \<Rightarrow> error + mstate" where
  "level4_step token_set_ratio ca cc ais_snap cg_snap stock st =
     (let ais_group = get_group stock ais_snap;
          (best_score, cg_match_name) =
             best_cg_group token_set_ratio stock (group_keys cg_snap) (0, None)
      in case cg_match_name of
           None \<Rightarrow> Inr st
         | Some cg_name \<Rightarrow>
            if cg_name = [] then Inr st
            else
              (let cg_group = get_group cg_name cg_snap
               in bindE (needs [(ca, ''Quantity (AIS)''), (cc, ''Quantity (CG)'')]) (\<lambda>_.
                    if sum_skipna (map quantity ais_group) = sum_skipna (map quantity cg_group)
                    then
                      bindE (needs [(ca, ''Stock Name (AIS)''), (cc, ''Stock Name (CG)''),
                                    (ca, ''Sales Value (AIS)''), (cc, ''Sales Value (CG)'')]) (\<lambda>_.
                      bindE (get_or_zero_sum ca ''Purchase Value (AIS)''
                               (map purchase_value ais_group)) (\<lambda>pv_ais.
                      bindE (get_or_zero_sum cc ''Purchase Value (CG)''
                               (map purchase_value cg_group)) (\<lambda>pv_cg.
                      bindE (needs [(ca, ''ID''), (cc, ''ID'')]) (\<lambda>_.
                        Inr (with_groups
                               (group_record (match_id st) best_score ais_group cg_group
                                  pv_ais pv_cg) st)))))
                    else Inr st)))"

definition level4 ::
  "(string \<Rightarrow> string \<Rightarrow> int) \<Rightarrow> string list \<Rightarrow> string list \<Rightarrow> mstate \<Rightarrow> error + mstate" where
  "level4 token_set_ratio ca cc st =
     bindE (needs [(ca, ''Stock Name Clean''), (cc, ''Stock Name Clean'')]) (\<lambda>_.
       for_each (level4_step token_set_ratio ca cc (unmatched_ais st) (unmatched_cg st))
         (group_keys (unmatched_ais st)) st)"

subsection \<open>\<^verbatim>\<open>match_records\<close> as a whole\<close>

text \<open>The three attributes of the engine that the theorems speak about. The column
  \<^verbatim>\<open>'Sales Difference'\<close> and \<^verbatim>\<open>create_stock_totals\<close> are computed from
  \<open>mapped_data\<close> afterwards and are not embedded.\<close>

record result =
  mapped_data :: "match_record list"
  unmapped_ais :: frame
  unmapped_cg :: frame

text \<open>Lines 195-210: the working copies with the two columns \<^verbatim>\<open>'Match ID'\<close> and
  \<^verbatim>\<open>'Match Type'\<close> added, the two pools, the empty match list, the counter.\<close>

definition work_columns :: "string list \<Rightarrow> string list" where
  "work_columns cols = set_column ''Match Type'' (set_column ''Match ID'' cols)"

definition initial_state :: "frame \<Rightarrow> frame \<Rightarrow> mstate" where
  "initial_state ais_data cg_data =
     \<lparr>unmatched_ais = rows ais_data, unmatched_cg = rows cg_data, matches = [], match_id = 1\<rparr>"

definition match_records ::
  "(string \<Rightarrow> string \<Rightarrow> int) \<Rightarrow> frame \<Rightarrow> frame \<Rightarrow> error + result" where
  "match_records token_set_ratio ais_data cg_data =
     (let ca = work_columns (columns ais_data);
          cc = work_columns (columns cg_data)
      in bindE (level1 ca cc (initial_state ais_data cg_data)) (\<lambda>st1.
         bindE (level2 ca cc st1) (\<lambda>st2.
         bindE (level3 token_set_ratio ca cc st2) (\<lambda>st3.
         bindE (level4 token_set_ratio ca cc st3) (\<lambda>st4.
         bindE (drop_columns [''Stock Name Clean'', ''ID''] ca) (\<lambda>ca'.
         bindE (drop_columns [''Stock Name Clean'', ''ID''] cc) (\<lambda>cc'.
           Inr \<lparr>mapped_data = matches st4,
                unmapped_ais = \<lparr>columns = ca', rows = unmatched_ais st4\<rparr>,
                unmapped_cg = \<lparr>columns = cc', rows = unmatched_cg st4\<rparr>\<rparr>)))))))"

text \<open>A run, as \<^verbatim>\<open>main\<close> makes it: \<^verbatim>\<open>load_data\<close>, then
  \<^verbatim>\<open>match_records\<close>.\<close>

definition reconcile ::
  "(string \<Rightarrow> string \<Rightarrow> int) \<Rightarrow> frame \<Rightarrow> frame \<Rightarrow> error + result" where
  "reconcile token_set_ratio ais_df cg_df =
     bindE (load_data ais_df cg_df) (\<lambda>(ais_data, cg_data).
       match_records token_set_ratio ais_data cg_data)"

subsection \<open>Levels 1 and 3 as the specification words them\<close>

text \<open>The columns a table must have (section 6 of the specification), together with the
  two that \<^verbatim>\<open>load_data\<close> adds.\<close>

definition required_columns_present :: "string list \<Rightarrow> string list \<Rightarrow> bool" where
  "required_columns_present ca cc \<longleftrightarrow>
     set [''Stock Name (AIS)'', ''Quantity (AIS)'', ''Sales Value (AIS)'', ''Sale Date (AIS)'',
          ''Stock Name Clean'', ''ID''] \<subseteq> set ca \<and>
     set [''Stock Name (CG)'', ''Quantity (CG)'', ''Sales Value (CG)'', ''Sale Date (CG)'',
          ''Stock Name Clean'', ''ID''] \<subseteq> set cc"

text \<open>Level 1's predicate on an AIS record and a CG record: identical normalized name,
  exactly equal quantity, both sale dates present and at most one day apart.\<close>

definition level1_pred :: "row \<Rightarrow> row \<Rightarrow> bool" where
  "level1_pred a c \<longleftrightarrow>
     stock_name_clean a = stock_name_clean c \<and>
     quantity a \<noteq> None \<and> quantity c = quantity a \<and>
     sale_date a \<noteq> None \<and> sale_date c \<noteq> None \<and>
     \<bar>the (sale_date a) - the (sale_date c)\<bar> \<le> one_day"

text \<open>One AIS record at level 1: skipped when its sale date is missing; otherwise the
  first record of the CG pool, in pool order, that satisfies the predicate is taken, one
  Level-1 match record is emitted, and exactly these two records leave their pools.\<close>

definition level1_spec_step :: "string list \<Rightarrow> string list \<Rightarrow> mstate \<Rightarrow> row \<Rightarrow> mstate" where
  "level1_spec_step ca cc st a =
     (if sale_date a = None then st
      else case find (level1_pred a) (unmatched_cg st) of
             None \<Rightarrow> st
           | Some c \<Rightarrow>
               st\<lparr>matches := matches st @ [pair_record ca cc (match_id st) Level1 a c],
                  unmatched_ais := remove1 a (unmatched_ais st),
                  unmatched_cg := remove1 c (unmatched_cg st),
                  match_id := match_id st + 1\<rparr>)"

text \<open>Level 1: the AIS records of the pool, taken in pool order.\<close>

definition level1_spec :: "string list \<Rightarrow> string list \<Rightarrow> mstate \<Rightarrow> mstate" where
  "level1_spec ca cc st = foldl (level1_spec_step ca cc) st (unmatched_ais st)"

text \<open>Level 3 considers, for an AIS record, only the CG records of exactly equal quantity
  whose name score is strictly above 80.\<close>

definition level3_score :: "(string \<Rightarrow> string \<Rightarrow> int) \<Rightarrow> row \<Rightarrow> row \<Rightarrow> int" where
  "level3_score f a c = fuzzy_match_stocks f (stock_name_clean a) (stock_name_clean c)"

definition level3_qualifies :: "(string \<Rightarrow> string \<Rightarrow> int) \<Rightarrow> row \<Rightarrow> row \<Rightarrow> bool" where
  "level3_qualifies f a c \<longleftrightarrow>
     quantity a \<noteq> None \<and> quantity c = quantity a \<and> level3_score f a c > 80"

text \<open>Among them it selects the highest score; among records of equal highest score, the
  one met first in pool order.\<close>

definition level3_choice :: "(string \<Rightarrow> string \<Rightarrow> int) \<Rightarrow> row \<Rightarrow> row list \<Rightarrow> row option" where
  "level3_choice f a pool =
     (let cands = filter (level3_qualifies f a) pool
      in if cands = [] then None
         else find (\<lambda>c. level3_score f a c = Max (set (map (level3_score f a) cands))) cands)"

definition level3_spec_step ::
  "(string \<Rightarrow> string \<Rightarrow> int) \<Rightarrow> string list \<Rightarrow> string list \<Rightarrow> mstate \<Rightarrow> row \<Rightarrow> mstate" where
  "level3_spec_step f ca cc st a =
     (case level3_choice f a (unmatched_cg st) of
        None \<Rightarrow> st
      | Some c \<Rightarrow>
          st\<lparr>matches := matches st @
                 [pair_record ca cc (match_id st) (Level3 (level3_score f a c)) a c],
             unmatched_ais := remove1 a (unmatched_ais st),
             unmatched_cg := remove1 c (unmatched_cg st),
             match_id := match_id st + 1\<rparr>)"

definition level3_spec ::
  "(string \<Rightarrow> string \<Rightarrow> int) \<Rightarrow> string list \<Rightarrow> string list \<Rightarrow> mstate \<Rightarrow> mstate" where
  "level3_spec f ca cc st = foldl (level3_spec_step f ca cc) st (unmatched_ais st)"

text \<open>What the loops of levels 1 to 3 keep true of the AIS rows \<open>xs\<close> still to be
  visited and the two pools: the rows to visit are in the AIS pool, and \<open>ID\<close> names a
  row uniquely among them and within each pool.\<close>

definition pools_ok :: "row list \<Rightarrow> mstate \<Rightarrow> bool" where
  "pools_ok xs st \<longleftrightarrow>
     distinct (map ID xs) \<and> set xs \<subseteq> set (unmatched_ais st) \<and>
     distinct (map ID (unmatched_ais st)) \<and> distinct (map ID (unmatched_cg st))"

text \<open>Two invariants of a run. \<open>from_pools A C\<close>: the pools are within \<open>A\<close> and \<open>C\<close>,
  and every match record not of level 1 takes its rows from \<open>A\<close> and \<open>C\<close>.
  \<open>level1_done d\<close>: only level 1 has matched so far, and no AIS row among \<open>d\<close> that is
  still unmatched has a CG row in the pool that passes the mask of level 1.\<close>

definition from_pools :: "row list \<Rightarrow> row list \<Rightarrow> mstate \<Rightarrow> bool" where
  "from_pools A C st \<longleftrightarrow>
     set (unmatched_ais st) \<subseteq> set A \<and> set (unmatched_cg st) \<subseteq> set C \<and>
     (\<forall>m \<in> set (matches st).
        Match_Type m = Level1 \<or>
        (set (ais_ids m) \<subseteq> ID ` set A \<and> set (cg_ids m) \<subseteq> ID ` set C))"

definition level1_done :: "row list \<Rightarrow> mstate \<Rightarrow> bool" where
  "level1_done d st \<longleftrightarrow>
     (\<forall>m \<in> set (matches st). Match_Type m = Level1) \<and>
     (\<forall>a \<in> set d. a \<in> set (unmatched_ais st) \<longrightarrow>
        (\<forall>c \<in> set (unmatched_cg st). \<not> level1_mask a c))"

subsection \<open>The tests of level 4 as the specification words them\<close>

text \<open>The CG group that the loop over the CG keys selects for an AIS group.\<close>

definition selected_cg_group ::
  "(string \<Rightarrow> string \<Rightarrow> int) \<Rightarrow> row list \<Rightarrow> string \<Rightarrow> string option" where
  "selected_cg_group f cg_pool stock = snd (best_cg_group f stock (group_keys cg_pool) (0, None))"

text \<open>The score threshold fails for an AIS group: no CG group scores strictly above 85
  against it.\<close>

definition threshold_fails :: "(string \<Rightarrow> string \<Rightarrow> int) \<Rightarrow> row list \<Rightarrow> string \<Rightarrow> bool" where
  "threshold_fails f cg_pool stock \<longleftrightarrow>
     (\<forall>h \<in> set (group_keys cg_pool). fuzzy_match_stocks f stock h \<le> 85)"

text \<open>The summed-quantity test fails for an AIS group: a CG group is selected and the two
  sums differ.\<close>

definition quantities_differ ::
  "(string \<Rightarrow> string \<Rightarrow> int) \<Rightarrow> row list \<Rightarrow> row list \<Rightarrow> string \<Rightarrow> bool" where
  "quantities_differ f ais_pool cg_pool stock \<longleftrightarrow>
     (case selected_cg_group f cg_pool stock of
        None \<Rightarrow> False
      | Some h \<Rightarrow> sum_skipna (map quantity (get_group stock ais_pool)) \<noteq>
                  sum_skipna (map quantity (get_group h cg_pool)))"

text \<open>Both tests pass.\<close>

definition aggregate_hit ::
  "(string \<Rightarrow> string \<Rightarrow> int) \<Rightarrow> row list \<Rightarrow> row list \<Rightarrow> string \<Rightarrow> bool" where
  "aggregate_hit f ais_pool cg_pool stock \<longleftrightarrow>
     (case selected_cg_group f cg_pool stock of
        None \<Rightarrow> False
      | Some h \<Rightarrow> sum_skipna (map quantity (get_group stock ais_pool)) =
                  sum_skipna (map quantity (get_group h cg_pool)))"

text \<open>The invariant of the loop of level 4, started in \<open>st0\<close>, after the AIS keys \<open>d\<close>:
  every match record added names the whole of an AIS group and of a CG group of the
  pools of \<open>st0\<close>, and no row with one of its \<open>ID\<close>s is in a pool; an AIS row that has
  left the pool belongs to a group among \<open>d\<close> that passed both tests.\<close>

definition level4_inv ::
  "(string \<Rightarrow> string \<Rightarrow> int) \<Rightarrow> mstate \<Rightarrow> string list \<Rightarrow> mstate \<Rightarrow> bool" where
  "level4_inv f st0 d s \<longleftrightarrow>
     set (unmatched_ais s) \<subseteq> set (unmatched_ais st0) \<and>
     set (unmatched_cg s) \<subseteq> set (unmatched_cg st0) \<and>
     (\<forall>m \<in> set (matches s).
        m \<in> set (matches st0) \<or>
        (\<exists>k \<in> set d. \<exists>h \<in> set (group_keys (unmatched_cg st0)).
           ais_ids m = map ID (get_group k (unmatched_ais st0)) \<and>
           cg_ids m = map ID (get_group h (unmatched_cg st0)) \<and>
           (\<forall>r \<in> set (unmatched_ais s). ID r \<notin> set (ais_ids m)) \<and>
           (\<forall>r \<in> set (unmatched_cg s). ID r \<notin> set (cg_ids m)))) \<and>
     (\<forall>r \<in> set (unmatched_ais st0).
        r \<in> set (unmatched_ais s) \<or>
        (stock_name_clean r \<in> set d \<and>
         aggregate_hit f (unmatched_ais st0) (unmatched_cg st0) (stock_name_clean r)))"

subsection \<open>Concrete tables\<close>

text \<open>A row as the caller enters it: \<open>ID\<close> and the normalized name are not yet set.\<close>

definition entered :: "string \<Rightarrow> int option \<Rightarrow> int option \<Rightarrow> int option \<Rightarrow> row" where
  "entered name qty val day =
     \<lparr>ID = 0, stock_name = name, stock_name_clean = [], quantity = qty, sales_value = val,
      sale_date = map_option (\<lambda>d. d * one_day) day,
      purchase_value = None, purchase_date = None\<rparr>"

definition ais_columns :: "string list" where
  "ais_columns = [''Stock Name (AIS)'', ''Quantity (AIS)'', ''Sales Value (AIS)'',
     ''Sale Date (AIS)'', ''Purchase Value (AIS)'', ''Purchase Date (AIS)'']"

definition cg_columns :: "string list" where
  "cg_columns = [''Stock Name (CG)'', ''Quantity (CG)'', ''Sales Value (CG)'',
     ''Sale Date (CG)'', ''Purchase Value (CG)'', ''Purchase Date (CG)'']"

text \<open>A fallback ratio to run the engine with: 100 on equal names, 0 otherwise.\<close>

definition exact_ratio :: "string \<Rightarrow> string \<Rightarrow> int" where
  "exact_ratio x y = (if x = y then 100 else 0)"

text \<open>Two tables for level 1: the first AIS row has two CG rows within a day, the second
  has no sale date, the third is the first row again.\<close>

definition level1_ais :: frame where
  "level1_ais = load_side \<lparr>columns = ais_columns, rows =
     [entered ''tcs'' (Some 5) (Some 500) (Some 10),
      entered ''Infy'' (Some 3) (Some 90) None,
      entered ''TCS '' (Some 5) (Some 510) (Some 10)]\<rparr>"

definition level1_cg :: frame where
  "level1_cg = load_side \<lparr>columns = cg_columns, rows =
     [entered ''TCS'' (Some 5) (Some 500) (Some 11),
      entered ''TCS'' (Some 5) (Some 510) (Some 10),
      entered ''INFY'' (Some 3) (Some 90) (Some 4)]\<rparr>"

text \<open>What makes the inner loop of level 3 replace its best match \<open>(b, _)\<close> by \<open>c\<close>.\<close>

definition fuzzy_better :: "(string \<Rightarrow> string \<Rightarrow> int) \<Rightarrow> row \<Rightarrow> int \<Rightarrow> row \<Rightarrow> bool" where
  "fuzzy_better f a b c \<longleftrightarrow> level3_qualifies f a c \<and> level3_score f a c > b"

text \<open>Two tables for level 3: three CG rows qualify for the first AIS row, with scores
  90, 95 and 95; none qualifies for the second.\<close>

definition level3_ais :: frame where
  "level3_ais = load_side \<lparr>columns = ais_columns, rows =
     [entered ''Reliance'' (Some 10) (Some 1000) (Some 10),
      entered ''XYZ'' (Some 4) (Some 40) (Some 10)]\<rparr>"

definition level3_cg :: frame where
  "level3_cg = load_side \<lparr>columns = cg_columns, rows =
     [entered ''Reliance Ind'' (Some 10) (Some 1000) (Some 20),
      entered ''RIL'' (Some 10) (Some 1000) (Some 20),
      entered ''ril'' (Some 10) (Some 990) (Some 20),
      entered ''RIL'' (Some 7) (Some 700) (Some 20)]\<rparr>"

text \<open>Split lots: two AIS names, two lots of 5 each, and one CG lot of 10 whose name
  scores 90 against both.\<close>

definition split_lots_ais :: frame where
  "split_lots_ais = \<lparr>columns = ais_columns, rows =
     [entered ''Infosys Limited'' (Some 5) (Some 500) (Some 10),
      entered ''Infosys Limited'' (Some 5) (Some 500) (Some 11),
      entered ''Infosys Ltd'' (Some 5) (Some 500) (Some 12),
      entered ''Infosys Ltd'' (Some 5) (Some 500) (Some 13)]\<rparr>"

definition split_lots_cg :: frame where
  "split_lots_cg = \<lparr>columns = cg_columns, rows =
     [entered ''Infosys'' (Some 10) (Some 1000) (Some 14)]\<rparr>"

text \<open>Scenario B of the specification, the AIS table without its two optional columns.\<close>

definition scenario_b_ais :: frame where
  "scenario_b_ais = \<lparr>columns =
       [''Stock Name (AIS)'', ''Quantity (AIS)'', ''Sales Value (AIS)'', ''Sale Date (AIS)''],
     rows = [entered ''TCS'' (Some 5) (Some 500) (Some 10),
             entered ''TCS'' (Some 5) (Some 500) (Some 11)]\<rparr>"

definition scenario_b_cg :: frame where
  "scenario_b_cg = \<lparr>columns = cg_columns, rows =
     [entered ''TCS'' (Some 10) (Some 1000) (Some 12)]\<rparr>"

text \<open>An AIS table without the required column \<^verbatim>\<open>'Sales Value (AIS)'\<close>, and a CG
  table that none of its rows matches; a CG table without its name column.\<close>

definition no_sales_ais :: frame where
  "no_sales_ais = \<lparr>columns = [''Stock Name (AIS)'', ''Quantity (AIS)'', ''Sale Date (AIS)''],
     rows = [entered ''ABC'' (Some 7) None (Some 10)]\<rparr>"

definition no_sales_cg :: frame where
  "no_sales_cg = \<lparr>columns = cg_columns, rows = [entered ''XYZ'' (Some 3) (Some 30) (Some 10)]\<rparr>"

definition no_name_cg :: frame where
  "no_name_cg = \<lparr>columns = [''Quantity (CG)'', ''Sales Value (CG)'', ''Sale Date (CG)''],
     rows = [entered [] (Some 3) (Some 30) (Some 10)]\<rparr>"

text \<open>A CG table without its quantity column, and one without its sale-date column.\<close>

definition no_quantity_cg :: frame where
  "no_quantity_cg = \<lparr>columns = [''Stock Name (CG)'', ''Sales Value (CG)'', ''Sale Date (CG)''],
     rows = [entered ''XYZ'' None (Some 30) (Some 10)]\<rparr>"

definition no_date_cg :: frame where
  "no_date_cg = \<lparr>columns = [''Stock Name (CG)'', ''Quantity (CG)'', ''Sales Value (CG)''],
     rows = [entered ''XYZ'' (Some 3) (Some 30) None]\<rparr>"

text \<open>AIS tables without the name column, without the sale-date column and without the
  quantity column.\<close>

definition no_name_ais :: frame where
  "no_name_ais = \<lparr>columns = [''Quantity (AIS)'', ''Sales Value (AIS)'', ''Sale Date (AIS)''],
     rows = [entered [] (Some 7) (Some 70) (Some 10)]\<rparr>"

definition no_date_ais :: frame where
  "no_date_ais = \<lparr>columns = [''Stock Name (AIS)'', ''Quantity (AIS)'', ''Sales Value (AIS)''],
     rows = [entered ''XYZ'' (Some 7) (Some 70) None]\<rparr>"

definition no_quantity_ais :: frame where
  "no_quantity_ais = \<lparr>columns = [''Stock Name (AIS)'', ''Sales Value (AIS)'', ''Sale Date (AIS)''],
     rows = [entered ''XYZ'' None (Some 70) (Some 10)]\<rparr>"

text \<open>Scenario C of the specification, with one more row on each side that stays
  unmatched.\<close>

definition scenario_c_ais :: frame where
  "scenario_c_ais = \<lparr>columns = ais_columns, rows =
     [entered ''XYZ'' (Some 7) (Some 70) (Some 10),
      entered ''ABC'' (Some 1) (Some 10) (Some 10)]\<rparr>"

definition scenario_c_cg :: frame where
  "scenario_c_cg = \<lparr>columns = cg_columns, rows =
     [entered ''XYZ'' (Some 7) (Some 70) (Some 12),
      entered ''DEF'' (Some 2) (Some 20) (Some 10)]\<rparr>"

text \<open>Two tables for level 4: the AIS group TCS sums to the CG group TCS; the AIS group
  ABC finds no CG group.\<close>

definition aggregate_ais :: frame where
  "aggregate_ais = load_side \<lparr>columns = ais_columns, rows =
     [entered ''TCS'' (Some 5) (Some 500) (Some 10),
      entered ''ABC'' (Some 1) (Some 10) (Some 10),
      entered ''TCS'' (Some 5) (Some 500) (Some 11)]\<rparr>"

definition aggregate_cg :: frame where
  "aggregate_cg = load_side \<lparr>columns = cg_columns, rows =
     [entered ''DEF'' (Some 2) (Some 20) (Some 10),
      entered ''TCS'' (Some 10) (Some 1000) (Some 12)]\<rparr>"

section \<open>Properties of the name score\<close>

lemma str_in_sublist: "str_in s t \<longleftrightarrow> sublist s t"
  by (induction t) (auto simp: sublist_Cons_right)

lemma substring_loop_ex:
  "substring_loop a b is \<longleftrightarrow> (\<exists>i \<in> set is. sublist (take 5 (drop i a)) b)"
  by (induction "is") (auto simp: str_in_sublist)

lemma slice_is_sublist: "sublist (take n (drop i a)) a"
proof -
  have "a = take i a @ take n (drop i a) @ drop n (drop i a)"
    by (simp only: append_take_drop_id)
  then show ?thesis
    unfolding sublist_def by blast
qed

lemma substring_loop_tier:
  assumes "5 \<le> length a"
  shows "substring_loop a b [0..<length a - 4] \<longleftrightarrow>
         (\<exists>s. length s = 5 \<and> sublist s a \<and> sublist s b)"
proof
  assume "substring_loop a b [0..<length a - 4]"
  then obtain i where i: "i < length a - 4" and sub: "sublist (take 5 (drop i a)) b"
    by (auto simp: substring_loop_ex)
  from i assms have "length (take 5 (drop i a)) = 5"
    by simp
  with sub slice_is_sublist [of 5 i a] show "\<exists>s. length s = 5 \<and> sublist s a \<and> sublist s b"
    by blast
next
  assume "\<exists>s. length s = 5 \<and> sublist s a \<and> sublist s b"
  then obtain s ps ss where s: "length s = 5" "sublist s b" and a: "a = ps @ s @ ss"
    unfolding sublist_def by blast
  from a s(1) have "length ps < length a - 4" "take 5 (drop (length ps) a) = s"
    by simp_all
  with s(2) show "substring_loop a b [0..<length a - 4]"
    by (auto simp: substring_loop_ex)
qed

lemma abbreviation_loop_ex:
  "abbreviation_loop tab a b \<longleftrightarrow>
     (\<exists>(key, vals) \<in> set tab. (a = key \<and> b \<in> set vals) \<or> (b = key \<and> a \<in> set vals))"
  by (induction tab a b rule: abbreviation_loop.induct) auto

lemma fuzzy_match_stocks_spec: "fuzzy_match_stocks f a b = score_spec f a b"
  unfolding fuzzy_match_stocks_def score_spec_def shared_substring_tier_def
    abbreviation_tier_def
  using substring_loop_tier [of a b] abbreviation_loop_ex [of abbreviations a b]
  by auto

lemma shared_substring_tier_sym: "shared_substring_tier a b = shared_substring_tier b a"
  unfolding shared_substring_tier_def by blast

lemma abbreviation_tier_sym: "abbreviation_tier a b = abbreviation_tier b a"
  unfolding abbreviation_tier_def by blast

text \<open>
  C2. For all names \<open>a\<close> and \<open>b\<close>, the score is determined by the first applicable tier
  in the order exact equality (100), shared 5-character substring (90), abbreviation
  table (95), fallback; it lies in \<open>[0,100]\<close> when the library's ratio does; and where
  both the substring tier and the abbreviation tier apply to distinct names the result
  is 90, not 95.
\<close>

theorem fuzzy_match_stocks_tiers:
  assumes "\<forall>x y. 0 \<le> token_set_ratio x y \<and> token_set_ratio x y \<le> 100"
  shows "fuzzy_match_stocks token_set_ratio a b = score_spec token_set_ratio a b
       \<and> 0 \<le> fuzzy_match_stocks token_set_ratio a b
       \<and> fuzzy_match_stocks token_set_ratio a b \<le> 100
       \<and> (a \<noteq> b \<and> shared_substring_tier a b \<and> abbreviation_tier a b
            \<longrightarrow> fuzzy_match_stocks token_set_ratio a b = 90)"
  using assms by (simp add: fuzzy_match_stocks_spec score_spec_def)

theorem fuzzy_match_stocks_tiers_witness:
  "fuzzy_match_stocks (\<lambda>x y. if x = y then 100 else 0) ''RELIANCE'' ''RELIANCE IND'' = 90
   \<and> score_spec (\<lambda>x y. if x = y then 100 else 0) ''RELIANCE'' ''RELIANCE IND'' = 90
   \<and> abbreviation_tier ''RELIANCE'' ''RELIANCE IND''"
proof -
  have h: "\<forall>x y. 0 \<le> (if x = y then 100 else 0 :: int) \<and> (if x = y then 100 else 0 :: int) \<le> 100"
    by simp
  have v: "fuzzy_match_stocks (\<lambda>x y. if x = y then 100 else 0) ''RELIANCE'' ''RELIANCE IND'' = 90"
    by (simp add: fuzzy_match_stocks_def)
  have t: "abbreviation_tier ''RELIANCE'' ''RELIANCE IND''"
    by (simp add: abbreviation_tier_def abbreviations_def)
  from fuzzy_match_stocks_tiers [OF h, of "''RELIANCE''" "''RELIANCE IND''"] v t
  show ?thesis by simp
qed

text \<open>
  C10, as stated: the full score, all four tiers, is symmetric for every pair of strings.
  With the library's ratio on the difflib backend, TIDE and DIET reach the fallback and
  score 25 in the one order and 50 in the other: the longest common block that starts
  earliest in the first string is T for TIDE, which leaves nothing on either side, and D
  for DIET, which leaves E to its right.
\<close>

theorem fallback_order_dependent:
  "fuzzy_match_stocks difflib_token_set_ratio ''TIDE'' ''DIET'' = 25
   \<and> fuzzy_match_stocks difflib_token_set_ratio ''DIET'' ''TIDE'' = 50"
  by code_simp

text \<open>
  C10, amended. The first three tiers are symmetric: each applies to \<open>(a, b)\<close> exactly
  when it applies to \<open>(b, a)\<close>. Hence, whatever the library's fallback ratio is, the score
  of \<open>(a, b)\<close> equals the score of \<open>(b, a)\<close> exactly when the names are equal, or share a
  5-character substring, or are an abbreviation pair, or the fallback ratio returns the
  same value in both orders.
\<close>

theorem fuzzy_match_stocks_symmetric_iff:
  "shared_substring_tier a b = shared_substring_tier b a
   \<and> abbreviation_tier a b = abbreviation_tier b a
   \<and> (fuzzy_match_stocks token_set_ratio a b = fuzzy_match_stocks token_set_ratio b a \<longleftrightarrow>
        a = b \<or> shared_substring_tier a b \<or> abbreviation_tier a b \<or>
        token_set_ratio a b = token_set_ratio b a)"
  using shared_substring_tier_sym [of a b] abbreviation_tier_sym [of a b]
  by (auto simp: fuzzy_match_stocks_spec score_spec_def)

theorem fuzzy_match_stocks_symmetric_iff_witness:
  "fuzzy_match_stocks difflib_token_set_ratio ''RIL'' ''RELIANCE'' =
     fuzzy_match_stocks difflib_token_set_ratio ''RELIANCE'' ''RIL''
   \<and> fuzzy_match_stocks difflib_token_set_ratio ''TIDE'' ''DIET'' \<noteq>
     fuzzy_match_stocks difflib_token_set_ratio ''DIET'' ''TIDE''"
proof -
  have t: "abbreviation_tier ''RIL'' ''RELIANCE''"
    by (simp add: abbreviation_tier_def abbreviations_def)
  have n: "''TIDE'' \<noteq> ''DIET''" "\<not> shared_substring_tier ''TIDE'' ''DIET''"
    "\<not> abbreviation_tier ''TIDE'' ''DIET''"
    by (simp_all add: shared_substring_tier_def abbreviation_tier_def abbreviations_def)
  have d: "difflib_token_set_ratio ''TIDE'' ''DIET'' \<noteq> difflib_token_set_ratio ''DIET'' ''TIDE''"
    by code_simp
  from fuzzy_match_stocks_symmetric_iff [of "''RIL''" "''RELIANCE''" difflib_token_set_ratio] t
  have 1: "fuzzy_match_stocks difflib_token_set_ratio ''RIL'' ''RELIANCE'' =
     fuzzy_match_stocks difflib_token_set_ratio ''RELIANCE'' ''RIL''"
    by blast
  from fuzzy_match_stocks_symmetric_iff [of "''TIDE''" "''DIET''" difflib_token_set_ratio] n d
  have 2: "fuzzy_match_stocks difflib_token_set_ratio ''TIDE'' ''DIET'' \<noteq>
     fuzzy_match_stocks difflib_token_set_ratio ''DIET'' ''TIDE''"
    by blast
  from 1 2 show ?thesis ..
qed

section \<open>The error monad, column reads and loops\<close>

lemma bindE_Inr [simp]: "bindE (Inr x) f = f x"
  by (simp add: bindE_def)

lemma bindE_Inl [simp]: "bindE (Inl e) f = Inl e"
  by (simp add: bindE_def)

lemma bindE_eq_Inr: "bindE m f = Inr y \<longleftrightarrow> (\<exists>x. m = Inr x \<and> f x = Inr y)"
  by (cases m) simp_all

lemma need_Inr [simp]: "c \<in> set cols \<Longrightarrow> need cols c = Inr ()"
  by (simp add: need_def)

lemma need_eq_Inr: "need cols c = Inr u \<longleftrightarrow> c \<in> set cols"
  by (simp add: need_def)

lemma needs_Inr: "(\<forall>(cols, c) \<in> set ps. c \<in> set cols) \<Longrightarrow> needs ps = Inr ()"
  by (induction ps rule: needs.induct) auto

lemma needs_eq_Inr: "needs ps = Inr u \<longleftrightarrow> (\<forall>(cols, c) \<in> set ps. c \<in> set cols)"
  by (induction ps rule: needs.induct) (auto simp: need_def split: sum.splits)

section \<open>Level 1\<close>

lemma find_filter_hd:
  "find P xs = (case filter P xs of [] \<Rightarrow> None | x # _ \<Rightarrow> Some x)"
  by (induction xs) auto

lemma level1_mask_pred: "level1_mask a = level1_pred a"
  by (rule ext) (auto simp: level1_mask_def level1_pred_def num_eq_def within_one_day_def
      split: option.splits)

lemma remove_id_remove1:
  "distinct (map ID rs) \<Longrightarrow> r \<in> set rs \<Longrightarrow> remove_id (ID r) rs = remove1 r rs"
proof (induction rs)
  case Nil
  then show ?case by simp
next
  case (Cons x rs)
  show ?case
  proof (cases "x = r")
    case True
    with Cons.prems have "ID r \<notin> ID ` set rs"
      by simp
    then have "\<forall>y\<in>set rs. ID y \<noteq> ID r"
      by (metis imageI)
    then have "filter (\<lambda>y. ID y \<noteq> ID r) rs = rs"
      by (simp add: filter_id_conv)
    with True show ?thesis
      by (simp add: remove_id_def)
  next
    case False
    with Cons.prems have "ID x \<noteq> ID r" "r \<in> set rs" "distinct (map ID rs)"
      by auto
    with Cons.IH False show ?thesis
      by (simp add: remove_id_def)
  qed
qed

lemma take_pair_ok:
  "required_columns_present ca cc \<Longrightarrow>
   take_pair ca cc ty a c st =
     Inr (st\<lparr>matches := matches st @ [pair_record ca cc (match_id st) ty a c],
             unmatched_ais := remove_id (ID a) (unmatched_ais st),
             unmatched_cg := remove_id (ID c) (unmatched_cg st),
             match_id := match_id st + 1\<rparr>)"
  by (simp add: take_pair_def with_pair_def pair_reads_def required_columns_present_def)

lemma level1_step_spec:
  assumes "required_columns_present ca cc" and "pools_ok (a # xs) st"
  shows "level1_step ca cc a st = Inr (level1_spec_step ca cc st a)"
proof -
  from assms(2) have a: "a \<in> set (unmatched_ais st)" "distinct (map ID (unmatched_ais st))"
    and cg: "distinct (map ID (unmatched_cg st))"
    by (auto simp: pools_ok_def)
  have c: "remove_id (ID c) (unmatched_cg st) = remove1 c (unmatched_cg st)"
    if "filter (level1_pred a) (unmatched_cg st) = c # cs" for c cs
  proof -
    from that have "c \<in> set (filter (level1_pred a) (unmatched_cg st))" by simp
    then show ?thesis using cg by (simp add: remove_id_remove1)
  qed
  from assms(1) show ?thesis
    unfolding level1_step_def level1_spec_step_def
    by (auto simp: required_columns_present_def find_filter_hd level1_mask_pred
        take_pair_ok [OF assms(1)] remove_id_remove1 [OF a(2) a(1)] c split: list.splits)
qed


lemma distinct_map_remove1: "distinct (map f xs) \<Longrightarrow> distinct (map f (remove1 x xs))"
proof (induction xs)
  case Nil
  then show ?case by simp
next
  case (Cons y ys)
  have "set (remove1 x ys) \<subseteq> set ys"
    by (rule set_remove1_subset)
  with Cons show ?case
    by (auto simp: image_iff)
qed

lemma pools_ok_skip: "pools_ok (a # xs) st \<Longrightarrow> pools_ok xs st"
  by (simp add: pools_ok_def)

lemma pools_ok_take:
  assumes "pools_ok (a # xs) st"
  shows "pools_ok xs (st\<lparr>matches := ms, unmatched_ais := remove1 a (unmatched_ais st),
                         unmatched_cg := remove1 c (unmatched_cg st), match_id := k\<rparr>)"
proof -
  from assms have d: "distinct (map ID xs)" and na: "ID a \<notin> ID ` set xs"
    and sub: "set xs \<subseteq> set (unmatched_ais st)"
    and da: "distinct (map ID (unmatched_ais st))" and dc: "distinct (map ID (unmatched_cg st))"
    by (simp_all add: pools_ok_def)
  have "x \<in> set (remove1 a (unmatched_ais st))" if "x \<in> set xs" for x
  proof -
    from that na have "x \<noteq> a" by blast
    with that sub show ?thesis by (simp add: in_set_remove1 subsetD)
  qed
  then have "set xs \<subseteq> set (remove1 a (unmatched_ais st))"
    by blast
  with d distinct_map_remove1 [OF da] distinct_map_remove1 [OF dc] show ?thesis
    by (simp add: pools_ok_def)
qed


lemma for_each_foldl:
  assumes "\<And>x ys s. I (x # ys) s \<Longrightarrow> body x s = Inr (g s x) \<and> I ys (g s x)"
    and "I xs st"
  shows "for_each body xs st = Inr (foldl g st xs)"
  using assms(2)
proof (induction xs arbitrary: st)
  case Nil
  then show ?case by simp
next
  case (Cons x xs)
  from assms(1) [OF Cons.prems] have "body x st = Inr (g st x)" "I xs (g st x)"
    by simp_all
  with Cons.IH show ?case by simp
qed

lemma level1_spec_step_pools_ok:
  assumes "pools_ok (a # xs) st"
  shows "pools_ok xs (level1_spec_step ca cc st a)"
proof (cases "sale_date a = None \<or> find (level1_pred a) (unmatched_cg st) = None")
  case True
  then have "level1_spec_step ca cc st a = st"
    by (auto simp: level1_spec_step_def)
  with assms show ?thesis
    by (simp add: pools_ok_skip)
next
  case False
  then obtain c where "sale_date a \<noteq> None" "find (level1_pred a) (unmatched_cg st) = Some c"
    by blast
  then have "level1_spec_step ca cc st a =
      st\<lparr>matches := matches st @ [pair_record ca cc (match_id st) Level1 a c],
         unmatched_ais := remove1 a (unmatched_ais st),
         unmatched_cg := remove1 c (unmatched_cg st),
         match_id := match_id st + 1\<rparr>"
    by (auto simp: level1_spec_step_def)
  with pools_ok_take [OF assms] show ?thesis
    by simp
qed

text \<open>
  C3. Level 1 skips every AIS record whose sale date is missing; for each other AIS record
  of the pool, in pool order, it takes the first CG record in pool order with identical
  normalized name, exactly equal quantity and sale dates at most one day apart, emits one
  Level-1 match record and removes exactly these two records from their pools before the
  next AIS record: on tables with their required columns, whose rows \<open>ID\<close> tells apart
  (as \<^verbatim>\<open>load_data\<close> makes it), the loop of the source computes \<open>level1_spec\<close>.
\<close>

theorem level1_first_match:
  assumes "required_columns_present ca cc"
    and "distinct (map ID (unmatched_ais st))" and "distinct (map ID (unmatched_cg st))"
  shows "level1 ca cc st = Inr (level1_spec ca cc st)"
  unfolding level1_def level1_spec_def
proof (rule for_each_foldl [where I = pools_ok])
  show "pools_ok (unmatched_ais st) st"
    using assms(2,3) by (simp add: pools_ok_def)
next
  fix x ys s
  assume "pools_ok (x # ys) s"
  then show "level1_step ca cc x s = Inr (level1_spec_step ca cc s x) \<and>
             pools_ok ys (level1_spec_step ca cc s x)"
    using assms(1) by (simp add: level1_step_spec level1_spec_step_pools_ok)
qed

theorem level1_first_match_witness:
  "level1 (work_columns (columns level1_ais)) (work_columns (columns level1_cg))
     (initial_state level1_ais level1_cg) =
   Inr (level1_spec (work_columns (columns level1_ais)) (work_columns (columns level1_cg))
     (initial_state level1_ais level1_cg))
   \<and> map ais_ids (matches (level1_spec (work_columns (columns level1_ais))
        (work_columns (columns level1_cg)) (initial_state level1_ais level1_cg))) = [[1], [3]]
   \<and> map cg_ids (matches (level1_spec (work_columns (columns level1_ais))
        (work_columns (columns level1_cg)) (initial_state level1_ais level1_cg))) = [[1], [2]]"
proof -
  have h1: "required_columns_present (work_columns (columns level1_ais))
      (work_columns (columns level1_cg))"
    by code_simp
  have h2: "distinct (map ID (unmatched_ais (initial_state level1_ais level1_cg)))"
    by code_simp
  have h3: "distinct (map ID (unmatched_cg (initial_state level1_ais level1_cg)))"
    by code_simp
  have v: "map ais_ids (matches (level1_spec (work_columns (columns level1_ais))
        (work_columns (columns level1_cg)) (initial_state level1_ais level1_cg))) = [[1], [3]]"
    by code_simp
  have w: "map cg_ids (matches (level1_spec (work_columns (columns level1_ais))
        (work_columns (columns level1_cg)) (initial_state level1_ais level1_cg))) = [[1], [2]]"
    by code_simp
  from level1_first_match [OF h1 h2 h3] v w show ?thesis
    by simp
qed

section \<open>Level 3\<close>

lemma find_filter: "find P (filter A xs) = find (\<lambda>x. A x \<and> P x) xs"
  by (induction xs) simp_all

lemma find_cong_set: "(\<And>x. x \<in> set xs \<Longrightarrow> P x = Q x) \<Longrightarrow> find P xs = find Q xs"
  by (induction xs) simp_all

lemma best_fuzzy_match_Cons:
  assumes "required_columns_present ca cc"
  shows "best_fuzzy_match f ca cc a (c # cs) (b, m) =
     (if fuzzy_better f a b c then best_fuzzy_match f ca cc a cs (level3_score f a c, Some c)
      else best_fuzzy_match f ca cc a cs (b, m))"
proof -
  have n1: "needs [(ca, ''Stock Name Clean''), (cc, ''Stock Name Clean'')] = Inr ()"
    and n2: "needs [(cc, ''Quantity (CG)''), (ca, ''Quantity (AIS)'')] = Inr ()"
    using assms by (simp_all add: required_columns_present_def)
  have "best_fuzzy_match f ca cc a (c # cs) (b, m) =
      (let score = level3_score f a c
       in if score > 80 then
            if num_eq (quantity c) (quantity a) \<and> score > b
            then best_fuzzy_match f ca cc a cs (score, Some c)
            else best_fuzzy_match f ca cc a cs (b, m)
          else best_fuzzy_match f ca cc a cs (b, m))"
    by (simp only: best_fuzzy_match.simps n1 n2 sum.case level3_score_def)
  then show ?thesis
    by (cases "quantity a"; cases "quantity c")
      (auto simp add: num_eq_def Let_def fuzzy_better_def level3_qualifies_def
        simp del: best_fuzzy_match.simps)
qed


lemma best_fuzzy_match_char:
  assumes "required_columns_present ca cc"
  shows "best_fuzzy_match f ca cc a cs (b, m) =
     Inr (if filter (fuzzy_better f a b) cs = [] then (b, m)
          else (Max (set (map (level3_score f a) (filter (fuzzy_better f a b) cs))),
                find (\<lambda>c. level3_score f a c =
                            Max (set (map (level3_score f a) (filter (fuzzy_better f a b) cs))))
                  (filter (fuzzy_better f a b) cs)))"
proof (induction cs arbitrary: b m)
  case Nil
  then show ?case by simp
next
  case (Cons c cs)
  let ?s = "level3_score f a"
  note step = best_fuzzy_match_Cons [OF assms, of f a c cs b m]
  show ?case
  proof (cases "fuzzy_better f a b c")
    case False
    with step Cons.IH [of b m] show ?thesis
      by (simp del: best_fuzzy_match.simps)
  next
    case True
    let ?Q = "filter (fuzzy_better f a b) cs"
    let ?Q' = "filter (fuzzy_better f a (?s c)) cs"
    from True have bc: "b < ?s c" by (simp add: fuzzy_better_def)
    have sub: "set ?Q' \<subseteq> set ?Q"
      using bc by (auto simp: fuzzy_better_def)
    have low: "?s x \<le> ?s c" if "x \<in> set ?Q" "x \<notin> set ?Q'" for x
      using that by (auto simp: fuzzy_better_def)
    have Qc: "filter (fuzzy_better f a b) (c # cs) = c # ?Q"
      using True by simp
    show ?thesis
    proof (cases "?Q' = []")
      case empty: True
      have le: "?s x \<le> ?s c" if "x \<in> set ?Q" for x
        using low [OF that] empty by simp
      have "Max (set (map ?s (c # ?Q))) = ?s c"
      proof (rule Max_eqI)
        show "finite (set (map ?s (c # ?Q)))" by simp
        show "?s c \<in> set (map ?s (c # ?Q))" by simp
        fix v assume "v \<in> set (map ?s (c # ?Q))"
        then obtain x where "x = c \<or> x \<in> set ?Q" "v = ?s x" by auto
        with le show "v \<le> ?s c" by auto
      qed
      with empty True step Cons.IH [of "?s c" "Some c"] show ?thesis
        unfolding Qc by (simp del: best_fuzzy_match.simps)
    next
      case False
      let ?M' = "Max (set (map ?s ?Q'))"
      from False have "set (map ?s ?Q') \<noteq> {}"
        by (auto simp: filter_empty_conv)
      then have "?M' \<in> set (map ?s ?Q')"
        by (intro Max_in) simp_all
      then obtain y where y: "y \<in> set ?Q'" "?s y = ?M'"
        by auto
      then have gt: "?s c < ?M'"
        by (simp add: fuzzy_better_def)
      have M: "Max (set (map ?s (c # ?Q))) = ?M'"
      proof (rule Max_eqI)
        show "finite (set (map ?s (c # ?Q)))" by simp
        from y sub have "y \<in> set ?Q" by blast
        with y(2) show "?M' \<in> set (map ?s (c # ?Q))"
          by (metis image_eqI list.set_intros(2) list.set_map)
        fix v assume "v \<in> set (map ?s (c # ?Q))"
        then obtain x where x: "x = c \<or> x \<in> set ?Q" "v = ?s x" by auto
        show "v \<le> ?M'"
        proof (cases "x \<in> set ?Q'")
          case True
          then have "?s x \<in> set (map ?s ?Q')" by simp
          then have "?s x \<le> ?M'" by (intro Max_ge) simp_all
          with x show ?thesis by simp
        next
          case nin: False
          from x(1) have "?s x \<le> ?s c"
          proof
            assume "x = c" then show ?thesis by simp
          next
            assume "x \<in> set ?Q" from low [OF this nin] show ?thesis .
          qed
          with gt x(2) show ?thesis by simp
        qed
      qed
      have "find (\<lambda>x. ?s x = ?M') ?Q = find (\<lambda>x. ?s x = ?M') ?Q'"
        unfolding find_filter
      proof (rule find_cong_set)
        fix x
        show "(fuzzy_better f a b x \<and> ?s x = ?M') = (fuzzy_better f a (?s c) x \<and> ?s x = ?M')"
          using gt bc by (auto simp: fuzzy_better_def)
      qed
      with gt have "find (\<lambda>x. ?s x = ?M') (c # ?Q) = find (\<lambda>x. ?s x = ?M') ?Q'"
        by simp
      with False M True step Cons.IH [of "?s c" "Some c"] show ?thesis
        unfolding Qc by (simp del: best_fuzzy_match.simps)
    qed
  qed
qed


lemma fuzzy_better_0: "fuzzy_better f a 0 = level3_qualifies f a"
  by (rule ext) (auto simp: fuzzy_better_def level3_qualifies_def)

lemma find_SomeD: "find P xs = Some x \<Longrightarrow> P x \<and> x \<in> set xs"
  by (induction xs) (auto split: if_splits)

lemma level3_choice_SomeD:
  assumes "level3_choice f a pool = Some c"
  shows "c \<in> set pool \<and> level3_qualifies f a c \<and>
         level3_score f a c = Max (set (map (level3_score f a) (filter (level3_qualifies f a) pool)))"
proof -
  from assms have "find (\<lambda>c. level3_score f a c =
      Max (set (map (level3_score f a) (filter (level3_qualifies f a) pool))))
      (filter (level3_qualifies f a) pool) = Some c"
    by (simp add: level3_choice_def Let_def del: set_map set_filter split: if_splits)
  from find_SomeD [OF this] show ?thesis by simp
qed

lemma best_fuzzy_match_choice:
  assumes "required_columns_present ca cc"
  shows "best_fuzzy_match f ca cc a pool (0, None) =
     Inr (case level3_choice f a pool of
            None \<Rightarrow> (if filter (level3_qualifies f a) pool = [] then 0
                      else Max (set (map (level3_score f a) (filter (level3_qualifies f a) pool))),
                     None)
          | Some c \<Rightarrow> (level3_score f a c, Some c))"
proof (cases "level3_choice f a pool")
  case None
  then show ?thesis
    unfolding best_fuzzy_match_char [OF assms] fuzzy_better_0
    by (simp add: level3_choice_def Let_def del: set_map set_filter split: if_splits)
next
  case (Some c)
  from level3_choice_SomeD [OF Some] Some show ?thesis
    unfolding best_fuzzy_match_char [OF assms] fuzzy_better_0
    by (simp add: level3_choice_def Let_def del: set_map set_filter split: if_splits)
qed

lemma level3_step_spec:
  assumes "required_columns_present ca cc" and "pools_ok (a # xs) st"
  shows "level3_step f ca cc a st = Inr (level3_spec_step f ca cc st a)"
proof (cases "level3_choice f a (unmatched_cg st)")
  case None
  then show ?thesis
    by (simp add: level3_step_def level3_spec_step_def best_fuzzy_match_choice [OF assms(1)])
next
  case (Some c)
  from assms(2) have a: "a \<in> set (unmatched_ais st)" "distinct (map ID (unmatched_ais st))"
    and cg: "distinct (map ID (unmatched_cg st))"
    by (simp_all add: pools_ok_def)
  from level3_choice_SomeD [OF Some] have "c \<in> set (unmatched_cg st)"
    by simp
  with cg have "remove_id (ID c) (unmatched_cg st) = remove1 c (unmatched_cg st)"
    by (rule remove_id_remove1)
  with Some remove_id_remove1 [OF a(2) a(1)] show ?thesis
    by (simp add: level3_step_def level3_spec_step_def best_fuzzy_match_choice [OF assms(1)]
        take_pair_ok [OF assms(1)])
qed

lemma level3_spec_step_pools_ok:
  assumes "pools_ok (a # xs) st"
  shows "pools_ok xs (level3_spec_step f ca cc st a)"
proof (cases "level3_choice f a (unmatched_cg st)")
  case None
  with assms show ?thesis
    by (simp add: level3_spec_step_def pools_ok_skip)
next
  case (Some c)
  with pools_ok_take [OF assms] show ?thesis
    by (simp add: level3_spec_step_def)
qed

text \<open>
  C4. For each AIS record of the pool that level 3 starts from, level 3 considers only
  the unmatched CG records of exactly equal quantity whose name score is strictly above
  80, selects among them the one of highest score, the first in CG pool order among equal
  highest scores, and leaves the AIS record unmatched when no CG record qualifies: on
  tables with their required columns, whose rows \<open>ID\<close> tells apart, the loops of the
  source compute \<open>level3_spec\<close>.
\<close>

theorem level3_best_match:
  assumes "required_columns_present ca cc"
    and "distinct (map ID (unmatched_ais st))" and "distinct (map ID (unmatched_cg st))"
  shows "level3 token_set_ratio ca cc st = Inr (level3_spec token_set_ratio ca cc st)"
  unfolding level3_def level3_spec_def
proof (rule for_each_foldl [where I = pools_ok])
  show "pools_ok (unmatched_ais st) st"
    using assms(2,3) by (simp add: pools_ok_def)
next
  fix x ys s
  assume "pools_ok (x # ys) s"
  then show "level3_step token_set_ratio ca cc x s =
               Inr (level3_spec_step token_set_ratio ca cc s x) \<and>
             pools_ok ys (level3_spec_step token_set_ratio ca cc s x)"
    using assms(1) by (simp add: level3_step_spec level3_spec_step_pools_ok)
qed

theorem level3_best_match_witness:
  "level3 exact_ratio (work_columns (columns level3_ais)) (work_columns (columns level3_cg))
     (initial_state level3_ais level3_cg) =
   Inr (level3_spec exact_ratio (work_columns (columns level3_ais))
     (work_columns (columns level3_cg)) (initial_state level3_ais level3_cg))
   \<and> map (\<lambda>m. (Match_Type m, ais_ids m, cg_ids m))
        (matches (level3_spec exact_ratio (work_columns (columns level3_ais))
          (work_columns (columns level3_cg)) (initial_state level3_ais level3_cg))) =
       [(Level3 95, [1], [2])]
   \<and> map ID (unmatched_ais (level3_spec exact_ratio (work_columns (columns level3_ais))
        (work_columns (columns level3_cg)) (initial_state level3_ais level3_cg))) = [2]"
proof -
  have h1: "required_columns_present (work_columns (columns level3_ais))
      (work_columns (columns level3_cg))"
    by code_simp
  have h2: "distinct (map ID (unmatched_ais (initial_state level3_ais level3_cg)))"
    by code_simp
  have h3: "distinct (map ID (unmatched_cg (initial_state level3_ais level3_cg)))"
    by code_simp
  have v: "map (\<lambda>m. (Match_Type m, ais_ids m, cg_ids m))
        (matches (level3_spec exact_ratio (work_columns (columns level3_ais))
          (work_columns (columns level3_cg)) (initial_state level3_ais level3_cg))) =
       [(Level3 95, [1], [2])]"
    by code_simp
  have w: "map ID (unmatched_ais (level3_spec exact_ratio (work_columns (columns level3_ais))
        (work_columns (columns level3_cg)) (initial_state level3_ais level3_cg))) = [2]"
    by code_simp
  from level3_best_match [OF h1 h2 h3, of exact_ratio] v w show ?thesis
    by simp
qed

section \<open>Level precedence\<close>

lemma with_pair_sel [simp]:
  "unmatched_ais (with_pair ca cc ty a c st) = remove_id (ID a) (unmatched_ais st)"
  "unmatched_cg (with_pair ca cc ty a c st) = remove_id (ID c) (unmatched_cg st)"
  "matches (with_pair ca cc ty a c st) = matches st @ [pair_record ca cc (match_id st) ty a c]"
  by (simp_all add: with_pair_def)

lemma with_groups_sel [simp]:
  "unmatched_ais (with_groups m st) = remove_ids (ais_ids m) (unmatched_ais st)"
  "unmatched_cg (with_groups m st) = remove_ids (cg_ids m) (unmatched_cg st)"
  "matches (with_groups m st) = matches st @ [m]"
  by (simp_all add: with_groups_def)

lemma pair_record_sel [simp]:
  "Match_Type (pair_record ca cc k ty a c) = ty"
  "ais_ids (pair_record ca cc k ty a c) = [ID a]"
  "cg_ids (pair_record ca cc k ty a c) = [ID c]"
  by (simp_all add: pair_record_def)

lemma group_record_sel [simp]:
  "Match_Type (group_record k sc g h pa pc) = Level4 sc"
  "ais_ids (group_record k sc g h pa pc) = map ID g"
  "cg_ids (group_record k sc g h pa pc) = map ID h"
  by (simp_all add: group_record_def)

lemma set_remove_id: "set (remove_id i rs) = {r \<in> set rs. ID r \<noteq> i}"
  by (simp add: remove_id_def)

lemma set_remove_ids: "set (remove_ids is rs) = {r \<in> set rs. ID r \<notin> set is}"
  by (simp add: remove_ids_def)

lemma for_each_preserves:
  assumes "for_each body xs st = Inr st'" and "I st"
    and "\<And>x s s'. x \<in> set xs \<Longrightarrow> I s \<Longrightarrow> body x s = Inr s' \<Longrightarrow> I s'"
  shows "I st'"
  using assms
proof (induction xs arbitrary: st)
  case Nil
  then show ?case by simp
next
  case (Cons x xs)
  from Cons.prems(1) obtain s where s: "body x st = Inr s" "for_each body xs s = Inr st'"
    by (auto split: sum.splits)
  from Cons.prems(3) [OF _ Cons.prems(2) s(1)] have Is: "I s" by simp
  show ?case
  proof (rule Cons.IH [OF s(2) Is])
    fix y t t'
    assume "y \<in> set xs" "I t" "body y t = Inr t'"
    then show "I t'"
      using Cons.prems(3) [of y t t'] by simp
  qed
qed

lemma for_each_prefix:
  assumes "for_each body xs st = Inr st'" and "I ds st"
    and "\<And>d x s s'. I d s \<Longrightarrow> body x s = Inr s' \<Longrightarrow> I (d @ [x]) s'"
  shows "I (ds @ xs) st'"
  using assms(1,2)
proof (induction xs arbitrary: ds st)
  case Nil
  then show ?case by simp
next
  case (Cons x xs)
  from Cons.prems(1) obtain s where s: "body x st = Inr s" "for_each body xs s = Inr st'"
    by (auto split: sum.splits)
  from assms(3) [OF Cons.prems(2) s(1)] have "I (ds @ [x]) s" .
  from Cons.IH [OF s(2) this] show ?case by simp
qed

lemma take_pair_Inr: "take_pair ca cc ty a c st = Inr st' \<Longrightarrow> st' = with_pair ca cc ty a c st"
  by (auto simp: take_pair_def bindE_eq_Inr)

lemma level1_step_Inr:
  assumes "level1_step ca cc a st = Inr st'"
  shows "(st' = st \<and> (\<forall>c \<in> set (unmatched_cg st). \<not> level1_mask a c)) \<or>
         (\<exists>c \<in> set (unmatched_cg st). st' = with_pair ca cc Level1 a c st)"
proof (cases "sale_date a = None")
  case True
  then have "\<not> level1_mask a c" for c
    by (simp add: level1_mask_def within_one_day_def split: option.splits)
  moreover from True assms have "st' = st"
    by (auto simp: level1_step_def bindE_eq_Inr)
  ultimately show ?thesis by simp
next
  case False
  show ?thesis
  proof (cases "filter (level1_mask a) (unmatched_cg st)")
    case Nil
    then have "\<forall>c \<in> set (unmatched_cg st). \<not> level1_mask a c"
      by (simp add: filter_empty_conv)
    moreover from Nil False assms have "st' = st"
      by (auto simp: level1_step_def bindE_eq_Inr)
    ultimately show ?thesis by simp
  next
    case (Cons c cs)
    then have "c \<in> set (filter (level1_mask a) (unmatched_cg st))" by simp
    then have "c \<in> set (unmatched_cg st)" by simp
    moreover from Cons False assms have "take_pair ca cc Level1 a c st = Inr st'"
      by (auto simp: level1_step_def bindE_eq_Inr)
    ultimately show ?thesis
      using take_pair_Inr by blast
  qed
qed

lemma level2_step_Inr:
  assumes "level2_step ca cc a st = Inr st'"
  shows "st' = st \<or> (\<exists>c \<in> set (unmatched_cg st). st' = with_pair ca cc Level2 a c st)"
proof (cases "filter (level2_mask a) (unmatched_cg st)")
  case Nil
  with assms have "st' = st"
    by (auto simp: level2_step_def bindE_eq_Inr)
  then show ?thesis by simp
next
  case (Cons c cs)
  then have "c \<in> set (filter (level2_mask a) (unmatched_cg st))" by simp
  then have "c \<in> set (unmatched_cg st)" by simp
  moreover from Cons assms have "take_pair ca cc Level2 a c st = Inr st'"
    by (auto simp: level2_step_def bindE_eq_Inr)
  ultimately show ?thesis
    using take_pair_Inr by blast
qed

lemma best_fuzzy_match_in:
  "best_fuzzy_match f ca cc a cs (b, m) = Inr (b', Some c) \<Longrightarrow> c \<in> set cs \<or> m = Some c"
proof (induction cs arbitrary: b m)
  case Nil
  then show ?case by simp
next
  case (Cons x cs)
  from Cons.prems obtain b1 m1 where
    "best_fuzzy_match f ca cc a cs (b1, m1) = Inr (b', Some c)" "m1 = m \<or> m1 = Some x"
    by (auto simp: Let_def split: sum.splits if_splits)
  with Cons.IH [of b1 m1] show ?case by auto
qed

lemma level3_step_Inr:
  assumes "level3_step f ca cc a st = Inr st'"
  shows "st' = st \<or> (\<exists>c \<in> set (unmatched_cg st). \<exists>sc. st' = with_pair ca cc (Level3 sc) a c st)"
proof -
  from assms obtain b m where bm: "best_fuzzy_match f ca cc a (unmatched_cg st) (0, None) = Inr (b, m)"
    and rest: "(case m of None \<Rightarrow> Inr st | Some c \<Rightarrow> take_pair ca cc (Level3 b) a c st) = Inr st'"
    by (auto simp: level3_step_def bindE_eq_Inr)
  show ?thesis
  proof (cases m)
    case None
    with rest show ?thesis by simp
  next
    case (Some c)
    with bm best_fuzzy_match_in [of f ca cc a "unmatched_cg st" 0 None b c]
    have "c \<in> set (unmatched_cg st)" by simp
    moreover from Some rest have "st' = with_pair ca cc (Level3 b) a c st"
      by (simp add: take_pair_Inr)
    ultimately show ?thesis by blast
  qed
qed


lemma level4_step_Inr:
  assumes "level4_step f ca cc A C k st = Inr st'"
  shows "st' = st \<or>
    (\<exists>h sc pa pc. snd (best_cg_group f k (group_keys C) (0, None)) = Some h \<and>
       sum_skipna (map quantity (get_group k A)) = sum_skipna (map quantity (get_group h C)) \<and>
       st' = with_groups (group_record (match_id st) sc (get_group k A) (get_group h C) pa pc) st)"
proof (cases "best_cg_group f k (group_keys C) (0, None)")
  case (Pair sc m)
  show ?thesis
  proof (cases m)
    case None
    with Pair assms show ?thesis
      by (simp add: level4_step_def)
  next
    case (Some h)
    with Pair assms show ?thesis
      by (auto simp: level4_step_def Let_def bindE_eq_Inr split: if_splits)
  qed
qed

lemma from_pools_with_pair:
  assumes "from_pools A C st" and "a \<in> set A" and "c \<in> set C"
  shows "from_pools A C (with_pair ca cc ty a c st)"
  using assms by (auto simp: from_pools_def set_remove_id)

lemma from_pools_with_groups:
  assumes "from_pools A C st" and "set (ais_ids m) \<subseteq> ID ` set A" and "set (cg_ids m) \<subseteq> ID ` set C"
  shows "from_pools A C (with_groups m st)"
  using assms by (auto simp: from_pools_def set_remove_ids)

lemma level1_from_pools:
  assumes "level1 ca cc st = Inr st'" and "from_pools A C st"
  shows "from_pools A C st'"
  using assms(1) [unfolded level1_def] assms(2)
proof (rule for_each_preserves)
  fix x s s'
  assume x: "x \<in> set (unmatched_ais st)" and s: "from_pools A C s"
    and b: "level1_step ca cc x s = Inr s'"
  from assms(2) x have "x \<in> set A" by (auto simp: from_pools_def)
  moreover from s have "set (unmatched_cg s) \<subseteq> set C" by (simp add: from_pools_def)
  ultimately show "from_pools A C s'"
    using level1_step_Inr [OF b] s by (auto intro: from_pools_with_pair)
qed

lemma level2_from_pools:
  assumes "level2 ca cc st = Inr st'" and "from_pools A C st"
  shows "from_pools A C st'"
  using assms(1) [unfolded level2_def] assms(2)
proof (rule for_each_preserves)
  fix x s s'
  assume x: "x \<in> set (unmatched_ais st)" and s: "from_pools A C s"
    and b: "level2_step ca cc x s = Inr s'"
  from assms(2) x have "x \<in> set A" by (auto simp: from_pools_def)
  moreover from s have "set (unmatched_cg s) \<subseteq> set C" by (simp add: from_pools_def)
  ultimately show "from_pools A C s'"
    using level2_step_Inr [OF b] s by (auto intro: from_pools_with_pair)
qed

lemma level3_from_pools:
  assumes "level3 f ca cc st = Inr st'" and "from_pools A C st"
  shows "from_pools A C st'"
  using assms(1) [unfolded level3_def] assms(2)
proof (rule for_each_preserves)
  fix x s s'
  assume x: "x \<in> set (unmatched_ais st)" and s: "from_pools A C s"
    and b: "level3_step f ca cc x s = Inr s'"
  from assms(2) x have "x \<in> set A" by (auto simp: from_pools_def)
  moreover from s have "set (unmatched_cg s) \<subseteq> set C" by (simp add: from_pools_def)
  ultimately show "from_pools A C s'"
    using level3_step_Inr [OF b] s by (auto intro: from_pools_with_pair)
qed

lemma level4_Inr:
  "level4 f ca cc st = Inr st' \<Longrightarrow>
   for_each (level4_step f ca cc (unmatched_ais st) (unmatched_cg st))
     (group_keys (unmatched_ais st)) st = Inr st'"
  by (auto simp: level4_def bindE_eq_Inr)

lemma level4_from_pools:
  assumes "level4 f ca cc st = Inr st'" and "from_pools A C st"
  shows "from_pools A C st'"
  using level4_Inr [OF assms(1)] assms(2)
proof (rule for_each_preserves)
  fix k s s'
  assume s: "from_pools A C s"
    and b: "level4_step f ca cc (unmatched_ais st) (unmatched_cg st) k s = Inr s'"
  from assms(2) have sub: "set (unmatched_ais st) \<subseteq> set A" "set (unmatched_cg st) \<subseteq> set C"
    by (simp_all add: from_pools_def)
  have ga: "set (ais_ids (group_record i sc (get_group x (unmatched_ais st)) g pa pc))
      \<subseteq> ID ` set A" for x i sc g pa pc
    using sub(1) by (auto simp: get_group_def)
  have gc: "set (cg_ids (group_record i sc g (get_group x (unmatched_cg st)) pa pc))
      \<subseteq> ID ` set C" for x i sc g pa pc
    using sub(2) by (auto simp: get_group_def)
  from level4_step_Inr [OF b] show "from_pools A C s'"
  proof
    assume "s' = s"
    with s show ?thesis by simp
  next
    assume "\<exists>h sc pa pc. snd (best_cg_group f k (group_keys (unmatched_cg st)) (0, None)) = Some h \<and>
       sum_skipna (map quantity (get_group k (unmatched_ais st))) =
         sum_skipna (map quantity (get_group h (unmatched_cg st))) \<and>
       s' = with_groups (group_record (match_id s) sc (get_group k (unmatched_ais st))
              (get_group h (unmatched_cg st)) pa pc) s"
    then obtain h sc pa pc where
      "s' = with_groups (group_record (match_id s) sc (get_group k (unmatched_ais st))
              (get_group h (unmatched_cg st)) pa pc) s"
      by blast
    with from_pools_with_groups [OF s ga gc] show ?thesis by simp
  qed
qed

lemma level1_level1_done:
  assumes "level1 ca cc st = Inr st'" and "matches st = []"
  shows "level1_done (unmatched_ais st) st'"
proof -
  have "level1_done ([] @ unmatched_ais st) st'"
    using assms(1) [unfolded level1_def]
  proof (rule for_each_prefix)
    show "level1_done [] st"
      using assms(2) by (simp add: level1_done_def)
  next
    fix d x s s'
    assume d: "level1_done d s" and b: "level1_step ca cc x s = Inr s'"
    from level1_step_Inr [OF b] show "level1_done (d @ [x]) s'"
    proof
      assume "s' = s \<and> (\<forall>c \<in> set (unmatched_cg s). \<not> level1_mask x c)"
      with d show ?thesis by (auto simp: level1_done_def)
    next
      assume "\<exists>c \<in> set (unmatched_cg s). s' = with_pair ca cc Level1 x c s"
      with d show ?thesis by (auto simp: level1_done_def set_remove_id)
    qed
  qed
  then show ?thesis by simp
qed


lemma assign_ids_IDs: "map ID (assign_ids rs) = [1..<length rs + 1]"
proof -
  have "map ID (assign_ids rs) = map fst (zip [1..<length rs + 1] rs)"
    by (simp add: assign_ids_def case_prod_beta)
  then show ?thesis
    by (simp add: map_fst_zip)
qed

lemma load_side_distinct: "distinct (map ID (rows (load_side df)))"
  by (simp add: load_side_def assign_ids_IDs)

lemma load_data_Inr:
  "load_data ais_df cg_df = Inr (A, C) \<Longrightarrow> A = load_side ais_df \<and> C = load_side cg_df"
  by (auto simp: load_data_def bindE_eq_Inr)

lemma match_records_Inr:
  assumes "match_records f A C = Inr res"
  obtains st1 st2 st3 st4 where
    "level1 (work_columns (columns A)) (work_columns (columns C)) (initial_state A C) = Inr st1"
    "level2 (work_columns (columns A)) (work_columns (columns C)) st1 = Inr st2"
    "level3 f (work_columns (columns A)) (work_columns (columns C)) st2 = Inr st3"
    "level4 f (work_columns (columns A)) (work_columns (columns C)) st3 = Inr st4"
    "mapped_data res = matches st4"
    "rows (unmapped_ais res) = unmatched_ais st4"
    "rows (unmapped_cg res) = unmatched_cg st4"
  using assms by (auto simp: match_records_def Let_def bindE_eq_Inr)

text \<open>
  C6. Level precedence: an AIS record and a CG record that satisfy level 1's predicate
  (identical normalized name, exactly equal quantity, both sale dates present and at most
  one day apart) never appear together in a match record of level 2, 3 or 4 of a run.
\<close>

theorem level_precedence:
  assumes "load_data ais_df cg_df = Inr (ais_data, cg_data)"
    and "match_records token_set_ratio ais_data cg_data = Inr res"
    and "m \<in> set (mapped_data res)" and "Match_Type m \<noteq> Level1"
    and "a \<in> set (rows ais_data)" and "c \<in> set (rows cg_data)"
    and "ID a \<in> set (ais_ids m)" and "ID c \<in> set (cg_ids m)"
  shows "\<not> level1_pred a c"
proof -
  let ?ca = "work_columns (columns ais_data)" and ?cc = "work_columns (columns cg_data)"
  let ?st0 = "initial_state ais_data cg_data"
  from load_data_Inr [OF assms(1)]
  have da: "inj_on ID (set (rows ais_data))" and dc: "inj_on ID (set (rows cg_data))"
    using load_side_distinct by (simp_all add: distinct_map)
  from assms(2) obtain st1 st2 st3 st4 where
    l1: "level1 ?ca ?cc ?st0 = Inr st1" and l2: "level2 ?ca ?cc st1 = Inr st2"
    and l3: "level3 token_set_ratio ?ca ?cc st2 = Inr st3"
    and l4: "level4 token_set_ratio ?ca ?cc st3 = Inr st4"
    and md: "mapped_data res = matches st4"
    by (rule match_records_Inr)
  have st0: "unmatched_ais ?st0 = rows ais_data" "unmatched_cg ?st0 = rows cg_data"
    "matches ?st0 = []"
    by (simp_all add: initial_state_def)
  have "from_pools (rows ais_data) (rows cg_data) ?st0"
    by (simp add: from_pools_def st0)
  from level1_from_pools [OF l1 this]
  have sub: "set (unmatched_ais st1) \<subseteq> set (rows ais_data)"
    "set (unmatched_cg st1) \<subseteq> set (rows cg_data)"
    by (simp_all add: from_pools_def)
  from level1_level1_done [OF l1 st0(3)] have done1: "level1_done (rows ais_data) st1"
    by (simp add: st0)
  then have "from_pools (unmatched_ais st1) (unmatched_cg st1) st1"
    by (simp add: from_pools_def level1_done_def)
  from level4_from_pools [OF l4 level3_from_pools [OF l3 level2_from_pools [OF l2 this]]]
  have "from_pools (unmatched_ais st1) (unmatched_cg st1) st4" .
  with assms(3,4) md have ids: "set (ais_ids m) \<subseteq> ID ` set (unmatched_ais st1)"
    "set (cg_ids m) \<subseteq> ID ` set (unmatched_cg st1)"
    by (auto simp: from_pools_def)
  from ids(1) assms(7) obtain a' where a': "a' \<in> set (unmatched_ais st1)" "ID a' = ID a"
    by force
  with sub(1) assms(5) da have "a' = a"
    by (meson inj_onD subsetD)
  from ids(2) assms(8) obtain c' where c': "c' \<in> set (unmatched_cg st1)" "ID c' = ID c"
    by force
  with sub(2) assms(6) dc have "c' = c"
    by (meson inj_onD subsetD)
  from done1 assms(5) a'(1) c'(1) \<open>a' = a\<close> \<open>c' = c\<close> have "\<not> level1_mask a c"
    by (simp add: level1_done_def)
  then show ?thesis
    by (simp add: level1_mask_pred)
qed

theorem level_precedence_witness:
  "match_records exact_ratio (load_side scenario_c_ais) (load_side scenario_c_cg) =
     Inr (projr (match_records exact_ratio (load_side scenario_c_ais) (load_side scenario_c_cg)))
   \<and> map Match_Type (mapped_data (projr
        (match_records exact_ratio (load_side scenario_c_ais) (load_side scenario_c_cg)))) = [Level2]
   \<and> \<not> level1_pred (hd (rows (load_side scenario_c_ais))) (hd (rows (load_side scenario_c_cg)))"
proof -
  let ?A = "load_side scenario_c_ais" and ?C = "load_side scenario_c_cg"
  let ?res = "projr (match_records exact_ratio ?A ?C)"
  let ?m = "hd (mapped_data ?res)"
  have h1: "load_data scenario_c_ais scenario_c_cg = Inr (?A, ?C)"
    by code_simp
  have h2: "match_records exact_ratio ?A ?C = Inr ?res"
    by code_simp
  have h3: "?m \<in> set (mapped_data ?res)"
    by code_simp
  have h4: "Match_Type ?m \<noteq> Level1"
    by code_simp
  have h5: "hd (rows ?A) \<in> set (rows ?A)"
    by code_simp
  have h6: "hd (rows ?C) \<in> set (rows ?C)"
    by code_simp
  have h7: "ID (hd (rows ?A)) \<in> set (ais_ids ?m)"
    by code_simp
  have h8: "ID (hd (rows ?C)) \<in> set (cg_ids ?m)"
    by code_simp
  have v: "map Match_Type (mapped_data ?res) = [Level2]"
    by code_simp
  from level_precedence [OF h1 h2 h3 h4 h5 h6 h7 h8] h2 v show ?thesis
    by simp
qed

section \<open>Level 4\<close>

lemma best_cg_group_keeps:
  "m \<noteq> None \<Longrightarrow> snd (best_cg_group f k hs (b, m)) \<noteq> None"
  by (induction hs arbitrary: b m) (simp_all add: Let_def)

lemma best_cg_group_None:
  "snd (best_cg_group f k hs (b, m)) = None \<longleftrightarrow>
     m = None \<and> (\<forall>h \<in> set hs. \<not> (fuzzy_match_stocks f k h > 85 \<and> fuzzy_match_stocks f k h > b))"
proof (induction hs arbitrary: b m)
  case Nil
  then show ?case by simp
next
  case (Cons h hs)
  show ?case
  proof (cases "fuzzy_match_stocks f k h > 85 \<and> fuzzy_match_stocks f k h > b")
    case True
    then have "snd (best_cg_group f k (h # hs) (b, m)) =
        snd (best_cg_group f k hs (fuzzy_match_stocks f k h, Some h))"
      by (simp add: Let_def)
    with True best_cg_group_keeps [of "Some h" f k hs "fuzzy_match_stocks f k h"]
    show ?thesis by simp
  next
    case False
    then have "snd (best_cg_group f k (h # hs) (b, m)) = snd (best_cg_group f k hs (b, m))"
      by (auto simp: Let_def)
    with False Cons.IH [of b m] show ?thesis by auto
  qed
qed

lemma best_cg_group_in:
  "snd (best_cg_group f k hs (b, m)) = Some h \<Longrightarrow> h \<in> set hs \<or> m = Some h"
proof (induction hs arbitrary: b m)
  case Nil
  then show ?case by simp
next
  case (Cons x hs)
  from Cons.prems obtain b1 m1 where
    "snd (best_cg_group f k hs (b1, m1)) = Some h" "m1 = m \<or> m1 = Some x"
    by (auto simp: Let_def split: if_splits)
  with Cons.IH [of b1 m1] show ?case by auto
qed

lemma threshold_fails_selected:
  "threshold_fails f C k \<longleftrightarrow> selected_cg_group f C k = None"
  unfolding threshold_fails_def selected_cg_group_def best_cg_group_None
  by auto

lemma selected_in_keys: "selected_cg_group f C k = Some h \<Longrightarrow> h \<in> set (group_keys C)"
  unfolding selected_cg_group_def using best_cg_group_in [of f k "group_keys C" 0 None h]
  by simp

lemma fails_not_hit:
  "threshold_fails f C k \<or> quantities_differ f A C k \<Longrightarrow> \<not> aggregate_hit f A C k"
  by (auto simp: threshold_fails_selected quantities_differ_def aggregate_hit_def
      split: option.splits)

lemma level4_step_cases:
  assumes "level4_step f ca cc A C k st = Inr st'"
  shows "st' = st \<or>
    (\<exists>h m. selected_cg_group f C k = Some h \<and> aggregate_hit f A C k \<and>
       ais_ids m = map ID (get_group k A) \<and> cg_ids m = map ID (get_group h C) \<and>
       st' = with_groups m st)"
  using level4_step_Inr [OF assms]
proof
  assume "st' = st"
  then show ?thesis by simp
next
  assume "\<exists>h sc pa pc. snd (best_cg_group f k (group_keys C) (0, None)) = Some h \<and>
       sum_skipna (map quantity (get_group k A)) = sum_skipna (map quantity (get_group h C)) \<and>
       st' = with_groups (group_record (match_id st) sc (get_group k A) (get_group h C) pa pc) st"
  then obtain h sc pa pc where h: "selected_cg_group f C k = Some h"
    and q: "sum_skipna (map quantity (get_group k A)) = sum_skipna (map quantity (get_group h C))"
    and st': "st' = with_groups
        (group_record (match_id st) sc (get_group k A) (get_group h C) pa pc) st"
    by (auto simp: selected_cg_group_def)
  from h q have "aggregate_hit f A C k"
    by (simp add: aggregate_hit_def)
  with h st' group_record_sel(2,3) show ?thesis
    by blast
qed

lemma level4_inv_step:
  assumes inv: "level4_inv f st0 d s"
    and step: "level4_step f ca cc (unmatched_ais st0) (unmatched_cg st0) k s = Inr s'"
    and inj: "inj_on ID (set (unmatched_ais st0))"
  shows "level4_inv f st0 (d @ [k]) s'"
  using level4_step_cases [OF step]
proof
  assume "s' = s"
  with inv show ?thesis
    unfolding level4_inv_def by auto
next
  let ?A = "unmatched_ais st0" and ?C = "unmatched_cg st0"
  assume "\<exists>h m. selected_cg_group f ?C k = Some h \<and> aggregate_hit f ?A ?C k \<and>
       ais_ids m = map ID (get_group k ?A) \<and> cg_ids m = map ID (get_group h ?C) \<and>
       s' = with_groups m s"
  then obtain h m where h: "selected_cg_group f ?C k = Some h" and hit: "aggregate_hit f ?A ?C k"
    and ma: "ais_ids m = map ID (get_group k ?A)" and mc: "cg_ids m = map ID (get_group h ?C)"
    and s': "s' = with_groups m s"
    by blast
  from inv have subA: "set (unmatched_ais s) \<subseteq> set ?A" and subC: "set (unmatched_cg s) \<subseteq> set ?C"
    and old: "\<forall>m \<in> set (matches s). m \<in> set (matches st0) \<or>
        (\<exists>k \<in> set d. \<exists>h \<in> set (group_keys ?C).
           ais_ids m = map ID (get_group k ?A) \<and> cg_ids m = map ID (get_group h ?C) \<and>
           (\<forall>r \<in> set (unmatched_ais s). ID r \<notin> set (ais_ids m)) \<and>
           (\<forall>r \<in> set (unmatched_cg s). ID r \<notin> set (cg_ids m)))"
    and gone: "\<forall>r \<in> set ?A. r \<in> set (unmatched_ais s) \<or>
        (stock_name_clean r \<in> set d \<and> aggregate_hit f ?A ?C (stock_name_clean r))"
    unfolding level4_inv_def by simp_all
  have pa: "set (unmatched_ais s') = {r \<in> set (unmatched_ais s). ID r \<notin> set (ais_ids m)}"
    and pc: "set (unmatched_cg s') = {r \<in> set (unmatched_cg s). ID r \<notin> set (cg_ids m)}"
    and ms: "matches s' = matches s @ [m]"
    by (simp_all add: s' set_remove_ids)
  have 1: "set (unmatched_ais s') \<subseteq> set ?A" "set (unmatched_cg s') \<subseteq> set ?C"
    using subA subC pa pc by auto
  have 2: "x \<in> set (matches st0) \<or>
        (\<exists>k \<in> set (d @ [k]). \<exists>h \<in> set (group_keys ?C).
           ais_ids x = map ID (get_group k ?A) \<and> cg_ids x = map ID (get_group h ?C) \<and>
           (\<forall>r \<in> set (unmatched_ais s'). ID r \<notin> set (ais_ids x)) \<and>
           (\<forall>r \<in> set (unmatched_cg s'). ID r \<notin> set (cg_ids x)))"
    if "x \<in> set (matches s')" for x
  proof (cases "x = m")
    case True
    from selected_in_keys [OF h] ma mc pa pc have
      "\<exists>h \<in> set (group_keys ?C).
           ais_ids m = map ID (get_group k ?A) \<and> cg_ids m = map ID (get_group h ?C) \<and>
           (\<forall>r \<in> set (unmatched_ais s'). ID r \<notin> set (ais_ids m)) \<and>
           (\<forall>r \<in> set (unmatched_cg s'). ID r \<notin> set (cg_ids m))"
      by blast
    moreover have "k \<in> set (d @ [k])" by simp
    ultimately show ?thesis
      unfolding True by blast
  next
    case False
    with that ms have "x \<in> set (matches s)" by simp
    with old have "x \<in> set (matches st0) \<or>
        (\<exists>k \<in> set d. \<exists>h \<in> set (group_keys ?C).
           ais_ids x = map ID (get_group k ?A) \<and> cg_ids x = map ID (get_group h ?C) \<and>
           (\<forall>r \<in> set (unmatched_ais s). ID r \<notin> set (ais_ids x)) \<and>
           (\<forall>r \<in> set (unmatched_cg s). ID r \<notin> set (cg_ids x)))"
      by blast
    then show ?thesis
      unfolding pa pc by auto
  qed
  have 3: "r \<in> set (unmatched_ais s') \<or>
        (stock_name_clean r \<in> set (d @ [k]) \<and> aggregate_hit f ?A ?C (stock_name_clean r))"
    if r: "r \<in> set ?A" for r
  proof (cases "r \<in> set (unmatched_ais s)")
    case False
    with gone r show ?thesis by auto
  next
    case True
    show ?thesis
    proof (cases "ID r \<in> set (ais_ids m)")
      case False
      with True pa show ?thesis by simp
    next
      case in_m: True
      then obtain r' where r': "r' \<in> set ?A" "stock_name_clean r' = k" "ID r' = ID r"
        unfolding ma get_group_def by auto
      with inj r have "r' = r"
        by (meson inj_onD)
      with r' hit show ?thesis by simp
    qed
  qed
  from 1 2 3 show ?thesis
    unfolding level4_inv_def by blast
qed



section \<open>Failures of a run\<close>

lemma work_columns_set: "set (work_columns cols) = set cols \<union> {''Match ID'', ''Match Type''}"
  by (auto simp: work_columns_def set_column_def)

lemma load_side_columns:
  "set (columns (load_side df)) = set (columns df) \<union> {''Stock Name Clean'', ''ID''}"
  by (auto simp: load_side_def set_column_def)

lemma assign_ids_length: "length (assign_ids rs) = length rs"
proof -
  have "length (assign_ids rs) = length (map ID (assign_ids rs))"
    by (simp only: length_map)
  also have "\<dots> = length [1..<length rs + 1]"
    by (simp only: assign_ids_IDs)
  also have "\<dots> = length rs"
    by (simp only: length_upt add_diff_cancel_right')
  finally show ?thesis .
qed

lemma load_side_rows_Nil: "rows (load_side df) = [] \<longleftrightarrow> rows df = []"
proof -
  have "length (rows (load_side df)) = length (rows df)"
    by (simp add: load_side_def assign_ids_length)
  then show ?thesis
    by (metis length_0_conv)
qed

lemma load_data_eq:
  "load_data ais_df cg_df =
     (if ''Stock Name (AIS)'' \<notin> set (columns ais_df) then Inl (KeyError ''Stock Name (AIS)'')
      else if ''Stock Name (CG)'' \<notin> set (columns cg_df) then Inl (KeyError ''Stock Name (CG)'')
      else Inr (load_side ais_df, load_side cg_df))"
  by (simp add: load_data_def need_def)

lemma level1_fails_without_sale_date:
  assumes "''Sale Date (AIS)'' \<notin> set ca" and "unmatched_ais st \<noteq> []"
  shows "level1 ca cc st = Inl (KeyError ''Sale Date (AIS)'')"
proof -
  from assms(2) obtain a as where "unmatched_ais st = a # as"
    by (cases "unmatched_ais st") auto
  moreover from assms(1) have "level1_step ca cc a st = Inl (KeyError ''Sale Date (AIS)'')"
    by (simp add: level1_step_def need_def)
  ultimately show ?thesis
    by (simp add: level1_def)
qed

text \<open>The first quantity column that levels 1 and 2 read.\<close>

lemma quantity_reads_fail:
  assumes "''Stock Name Clean'' \<in> set ca" and "''Stock Name Clean'' \<in> set cc"
    and "''Quantity (CG)'' \<notin> set cc \<or> ''Quantity (AIS)'' \<notin> set ca"
  shows "needs ((cc, ''Stock Name Clean'') # (ca, ''Stock Name Clean'') #
           (cc, ''Quantity (CG)'') # (ca, ''Quantity (AIS)'') # rest) =
         Inl (KeyError (if ''Quantity (CG)'' \<notin> set cc then ''Quantity (CG)''
                        else ''Quantity (AIS)''))"
  using assms by (auto simp: need_def)

lemma level1_step_without_quantity:
  assumes "''Stock Name Clean'' \<in> set ca" and "''Stock Name Clean'' \<in> set cc"
    and "''Sale Date (AIS)'' \<in> set ca"
    and "''Quantity (CG)'' \<notin> set cc \<or> ''Quantity (AIS)'' \<notin> set ca"
  shows "level1_step ca cc a st =
     (if sale_date a = None then Inr st
      else Inl (KeyError (if ''Quantity (CG)'' \<notin> set cc then ''Quantity (CG)''
                          else ''Quantity (AIS)'')))"
  unfolding level1_step_def quantity_reads_fail [OF assms(1,2,4)]
  using assms(3) by simp

lemma level2_step_without_quantity:
  assumes "''Stock Name Clean'' \<in> set ca" and "''Stock Name Clean'' \<in> set cc"
    and "''Quantity (CG)'' \<notin> set cc \<or> ''Quantity (AIS)'' \<notin> set ca"
  shows "level2_step ca cc a st =
     Inl (KeyError (if ''Quantity (CG)'' \<notin> set cc then ''Quantity (CG)''
                    else ''Quantity (AIS)''))"
  unfolding level2_step_def quantity_reads_fail [OF assms]
  by simp

lemma for_each_same_or_fail:
  assumes "\<And>x s. body x s = Inr s \<or> body x s = Inl e"
  shows "for_each body xs st = Inr st \<or> for_each body xs st = Inl e"
proof (induction xs)
  case Nil
  then show ?case by simp
next
  case (Cons x xs)
  from assms [of x st] Cons.IH show ?case
    by auto
qed

lemma levels12_fail_without_quantity:
  assumes "''Stock Name Clean'' \<in> set ca" and "''Stock Name Clean'' \<in> set cc"
    and "''Sale Date (AIS)'' \<in> set ca"
    and "''Quantity (CG)'' \<notin> set cc \<or> ''Quantity (AIS)'' \<notin> set ca"
    and "unmatched_ais st \<noteq> []"
  shows "bindE (level1 ca cc st) (\<lambda>st1. bindE (level2 ca cc st1) g) =
     Inl (KeyError (if ''Quantity (CG)'' \<notin> set cc then ''Quantity (CG)''
                    else ''Quantity (AIS)''))"
proof -
  let ?e = "KeyError (if ''Quantity (CG)'' \<notin> set cc then ''Quantity (CG)'' else ''Quantity (AIS)'')"
  have "level1 ca cc st = Inr st \<or> level1 ca cc st = Inl ?e"
    unfolding level1_def
    by (rule for_each_same_or_fail) (simp add: level1_step_without_quantity [OF assms(1-4)])
  moreover have "level2 ca cc st = Inl ?e"
  proof -
    from assms(5) obtain a as where "unmatched_ais st = a # as"
      by (cases "unmatched_ais st") auto
    then show ?thesis
      by (simp add: level2_def level2_step_without_quantity [OF assms(1,2,4)])
  qed
  ultimately show ?thesis
    by auto
qed


lemma reconcile_loaded:
  assumes "''Stock Name (AIS)'' \<in> set (columns ais_df)" and "''Stock Name (CG)'' \<in> set (columns cg_df)"
  shows "reconcile f ais_df cg_df = match_records f (load_side ais_df) (load_side cg_df)"
  using assms by (simp add: reconcile_def load_data_eq)

lemma initial_pool: "unmatched_ais (initial_state A C) = rows A"
  by (simp add: initial_state_def)

lemma reconcile_without_sale_date:
  assumes "''Stock Name (AIS)'' \<in> set (columns ais_df)" and "''Stock Name (CG)'' \<in> set (columns cg_df)"
    and "rows ais_df \<noteq> []" and "''Sale Date (AIS)'' \<notin> set (columns ais_df)"
  shows "reconcile f ais_df cg_df = Inl (KeyError ''Sale Date (AIS)'')"
proof -
  let ?A = "load_side ais_df" and ?C = "load_side cg_df"
  from assms(4) have "''Sale Date (AIS)'' \<notin> set (work_columns (columns ?A))"
    by (simp add: work_columns_set load_side_columns)
  moreover from assms(3) have "unmatched_ais (initial_state ?A ?C) \<noteq> []"
    by (simp add: initial_pool load_side_rows_Nil)
  ultimately have "level1 (work_columns (columns ?A)) (work_columns (columns ?C))
      (initial_state ?A ?C) = Inl (KeyError ''Sale Date (AIS)'')"
    by (rule level1_fails_without_sale_date)
  then show ?thesis
    by (simp add: reconcile_loaded [OF assms(1,2)] match_records_def Let_def)
qed

lemma reconcile_without_quantity:
  assumes "''Stock Name (AIS)'' \<in> set (columns ais_df)" and "''Stock Name (CG)'' \<in> set (columns cg_df)"
    and "rows ais_df \<noteq> []" and "''Sale Date (AIS)'' \<in> set (columns ais_df)"
    and "''Quantity (CG)'' \<notin> set (columns cg_df) \<or> ''Quantity (AIS)'' \<notin> set (columns ais_df)"
  shows "reconcile f ais_df cg_df =
     Inl (KeyError (if ''Quantity (CG)'' \<notin> set (columns cg_df) then ''Quantity (CG)''
                    else ''Quantity (AIS)''))"
proof -
  let ?A = "load_side ais_df" and ?C = "load_side cg_df"
  let ?ca = "work_columns (columns ?A)" and ?cc = "work_columns (columns ?C)"
  have 1: "''Stock Name Clean'' \<in> set ?ca" and 2: "''Stock Name Clean'' \<in> set ?cc"
    by (simp_all add: work_columns_set load_side_columns)
  from assms(4) have 3: "''Sale Date (AIS)'' \<in> set ?ca"
    by (simp add: work_columns_set load_side_columns)
  have q: "''Quantity (CG)'' \<notin> set ?cc \<longleftrightarrow> ''Quantity (CG)'' \<notin> set (columns cg_df)"
    "''Quantity (AIS)'' \<notin> set ?ca \<longleftrightarrow> ''Quantity (AIS)'' \<notin> set (columns ais_df)"
    by (simp_all add: work_columns_set load_side_columns)
  from assms(5) have 4: "''Quantity (CG)'' \<notin> set ?cc \<or> ''Quantity (AIS)'' \<notin> set ?ca"
    unfolding q .
  from assms(3) have 5: "unmatched_ais (initial_state ?A ?C) \<noteq> []"
    by (simp add: initial_pool load_side_rows_Nil)
  show ?thesis
    unfolding reconcile_loaded [OF assms(1,2)] match_records_def Let_def
      levels12_fail_without_quantity [OF 1 2 3 4 5] q ..
qed

text \<open>The sale-date column of the CG table is first read by the mask of level 1, for the
  first AIS row that has a sale date.\<close>

lemma for_each_first_failure:
  assumes "\<And>x s. body x s = (if skip x then Inr s else Inl e)"
    and "\<exists>x \<in> set xs. \<not> skip x"
  shows "for_each body xs st = Inl e"
  using assms(2)
proof (induction xs)
  case Nil
  then show ?case by simp
next
  case (Cons x xs)
  show ?case
  proof (cases "skip x")
    case True
    with Cons.prems have "\<exists>y \<in> set xs. \<not> skip y"
      by auto
    from Cons.IH [OF this] True show ?thesis
      by (simp add: assms(1))
  next
    case False
    then show ?thesis
      by (simp add: assms(1))
  qed
qed

lemma level1_step_without_cg_sale_date:
  assumes "''Stock Name Clean'' \<in> set ca" and "''Stock Name Clean'' \<in> set cc"
    and "''Quantity (CG)'' \<in> set cc" and "''Quantity (AIS)'' \<in> set ca"
    and "''Sale Date (AIS)'' \<in> set ca" and "''Sale Date (CG)'' \<notin> set cc"
  shows "level1_step ca cc a st =
     (if sale_date a = None then Inr st else Inl (KeyError ''Sale Date (CG)''))"
  using assms by (simp add: level1_step_def need_def)

lemma level1_fails_without_cg_sale_date:
  assumes "''Stock Name Clean'' \<in> set ca" and "''Stock Name Clean'' \<in> set cc"
    and "''Quantity (CG)'' \<in> set cc" and "''Quantity (AIS)'' \<in> set ca"
    and "''Sale Date (AIS)'' \<in> set ca" and "''Sale Date (CG)'' \<notin> set cc"
    and "\<exists>a \<in> set (unmatched_ais st). sale_date a \<noteq> None"
  shows "level1 ca cc st = Inl (KeyError ''Sale Date (CG)'')"
  unfolding level1_def
proof (rule for_each_first_failure [where skip = "\<lambda>a. sale_date a = None"])
  fix x s
  show "level1_step ca cc x s =
     (if sale_date x = None then Inr s else Inl (KeyError ''Sale Date (CG)''))"
    by (rule level1_step_without_cg_sale_date [OF assms(1-6)])
next
  from assms(7) show "\<exists>x \<in> set (unmatched_ais st). \<not> sale_date x = None" .
qed

lemma assign_ids_sale_date: "map sale_date (assign_ids rs) = map sale_date rs"
proof -
  have "map sale_date (assign_ids rs) = map (sale_date \<circ> snd) (zip [1..<length rs + 1] rs)"
    by (simp add: assign_ids_def split_def comp_def)
  also have "\<dots> = map sale_date (map snd (zip [1..<length rs + 1] rs))"
    by simp
  also have "map snd (zip [1..<length rs + 1] rs) = rs"
    by (rule map_snd_zip) (simp only: length_upt add_diff_cancel_right')
  finally show ?thesis .
qed

lemma load_side_sale_date: "sale_date ` set (rows (load_side df)) = sale_date ` set (rows df)"
proof -
  have "map sale_date (rows (load_side df)) = map sale_date (rows df)"
    by (simp add: load_side_def assign_ids_sale_date comp_def)
  then have "set (map sale_date (rows (load_side df))) = set (map sale_date (rows df))"
    by (rule arg_cong)
  then show ?thesis
    by (simp only: set_map)
qed

lemma reconcile_without_cg_sale_date:
  assumes "''Stock Name (AIS)'' \<in> set (columns ais_df)" and "''Stock Name (CG)'' \<in> set (columns cg_df)"
    and "''Quantity (CG)'' \<in> set (columns cg_df)" and "''Quantity (AIS)'' \<in> set (columns ais_df)"
    and "''Sale Date (AIS)'' \<in> set (columns ais_df)"
    and "\<exists>a \<in> set (rows ais_df). sale_date a \<noteq> None"
    and "''Sale Date (CG)'' \<notin> set (columns cg_df)"
  shows "reconcile f ais_df cg_df = Inl (KeyError ''Sale Date (CG)'')"
proof -
  let ?A = "load_side ais_df" and ?C = "load_side cg_df"
  let ?ca = "work_columns (columns ?A)" and ?cc = "work_columns (columns ?C)"
  have 1: "''Stock Name Clean'' \<in> set ?ca" and 2: "''Stock Name Clean'' \<in> set ?cc"
    by (simp_all add: work_columns_set load_side_columns)
  from assms(3,4,5) have 3: "''Quantity (CG)'' \<in> set ?cc" and 4: "''Quantity (AIS)'' \<in> set ?ca"
    and 5: "''Sale Date (AIS)'' \<in> set ?ca"
    by (simp_all add: work_columns_set load_side_columns)
  from assms(7) have 6: "''Sale Date (CG)'' \<notin> set ?cc"
    by (simp add: work_columns_set load_side_columns)
  from assms(6) have "\<exists>d \<in> sale_date ` set (rows ais_df). d \<noteq> None"
    by blast
  then have "\<exists>d \<in> sale_date ` set (rows ?A). d \<noteq> None"
    by (simp only: load_side_sale_date)
  then have 7: "\<exists>a \<in> set (unmatched_ais (initial_state ?A ?C)). sale_date a \<noteq> None"
    unfolding initial_pool by blast
  have "level1 ?ca ?cc (initial_state ?A ?C) = Inl (KeyError ''Sale Date (CG)'')"
    by (rule level1_fails_without_cg_sale_date [OF 1 2 3 4 5 6 7])
  then show ?thesis
    by (simp add: reconcile_loaded [OF assms(1,2)] match_records_def Let_def)
qed

section \<open>Runs on concrete tables\<close>

text \<open>
  C1. Partition: every input record is either unmatched or consumed by exactly one match
  record. On the split-lot tables the run returns two level-4 match records; the AIS
  records 1, 2 and 3, 4 go to one each, and the single CG record goes to both: the loop
  over the AIS groups reads the CG groups as they were before the loop.
\<close>

theorem cg_record_in_two_matches:
  "map_sum id (map Match_Type \<circ> mapped_data)
     (reconcile exact_ratio split_lots_ais split_lots_cg) = Inr [Level4 90, Level4 90]
   \<and> map_sum id (map ais_ids \<circ> mapped_data)
     (reconcile exact_ratio split_lots_ais split_lots_cg) = Inr [[1, 2], [3, 4]]
   \<and> map_sum id (map cg_ids \<circ> mapped_data)
     (reconcile exact_ratio split_lots_ais split_lots_cg) = Inr [[1], [1]]
   \<and> map_sum id (rows \<circ> unmapped_ais)
     (reconcile exact_ratio split_lots_ais split_lots_cg) = Inr []
   \<and> map_sum id (rows \<circ> unmapped_cg)
     (reconcile exact_ratio split_lots_ais split_lots_cg) = Inr []"
  by code_simp

text \<open>
  C7. A run on tables without an optional column completes. On scenario B without the
  column \<^verbatim>\<open>'Purchase Value (AIS)'\<close> the aggregate path of level 4 raises
  \<^verbatim>\<open>AttributeError\<close>: \<^verbatim>\<open>get\<close> returns its default 0, and the run calls
  \<^verbatim>\<open>sum\<close> on it.
\<close>

theorem aggregate_without_purchase_value_raises:
  "reconcile exact_ratio scenario_b_ais scenario_b_cg = Inl (AttributeError ''sum'')"
  by code_simp

text \<open>
  C9. The unmatched tables have exactly the input columns. On scenario C the run drops
  \<^verbatim>\<open>'Stock Name Clean'\<close> and \<^verbatim>\<open>'ID'\<close> and leaves the columns
  \<^verbatim>\<open>'Match ID'\<close> and \<^verbatim>\<open>'Match Type'\<close>, which it added at its start, in both
  unmatched tables.
\<close>

theorem unmatched_tables_keep_match_columns:
  "map_sum id (columns \<circ> unmapped_ais) (reconcile exact_ratio scenario_c_ais scenario_c_cg) =
     Inr (columns scenario_c_ais @ [''Match ID'', ''Match Type''])
   \<and> map_sum id (columns \<circ> unmapped_cg) (reconcile exact_ratio scenario_c_ais scenario_c_cg) =
     Inr (columns scenario_c_cg @ [''Match ID'', ''Match Type''])
   \<and> map_sum id (map ID \<circ> rows \<circ> unmapped_ais)
       (reconcile exact_ratio scenario_c_ais scenario_c_cg) = Inr [2]"
  by code_simp

text \<open>
  C8, as the specification states it: a table without a required column makes the run
  fail. The AIS table here has no column \<^verbatim>\<open>'Sales Value (AIS)'\<close>; no row of it
  finds a match, the column is never read, and the run returns its result.
\<close>

theorem absent_sales_value_unnoticed:
  "''Sales Value (AIS)'' \<notin> set (columns no_sales_ais)
   \<and> reconcile exact_ratio no_sales_ais no_sales_cg =
     Inr \<lparr>mapped_data = [],
          unmapped_ais = \<lparr>columns = columns no_sales_ais @ [''Match ID'', ''Match Type''],
                          rows = rows (load_side no_sales_ais)\<rparr>,
          unmapped_cg = \<lparr>columns = columns no_sales_cg @ [''Match ID'', ''Match Type''],
                         rows = rows (load_side no_sales_cg)\<rparr>\<rparr>"
  by code_simp

text \<open>
  C8, amended. The code has no \<^verbatim>\<open>SchemaError\<close> and checks no schema; an absent
  column is noticed where the run first reads it, as a \<^verbatim>\<open>KeyError\<close> naming it.
  A table without its stock-name column makes every run fail so, in
  \<^verbatim>\<open>load_data\<close> (the AIS column is read first). With both name columns there:
  if the AIS table has a row, a missing \<^verbatim>\<open>'Sale Date (AIS)'\<close> makes the run fail
  with a \<^verbatim>\<open>KeyError\<close> naming it, and so does a missing quantity column when
  \<^verbatim>\<open>'Sale Date (AIS)'\<close> is there (the CG column is read first); if some AIS row has
  a sale date and the columns before are there, a missing \<^verbatim>\<open>'Sale Date (CG)'\<close>
  makes the run fail with a \<^verbatim>\<open>KeyError\<close> naming it. These reads are in
  \<^verbatim>\<open>load_data\<close>, at the head of the loop of level 1 and in the masks of levels
  1 and 2. The sales-value columns are read only where a match record is built.
\<close>

theorem required_column_failures:
  "(''Stock Name (AIS)'' \<notin> set (columns ais_df) \<longrightarrow>
      reconcile token_set_ratio ais_df cg_df = Inl (KeyError ''Stock Name (AIS)''))
   \<and> (''Stock Name (AIS)'' \<in> set (columns ais_df) \<longrightarrow>
      ''Stock Name (CG)'' \<notin> set (columns cg_df) \<longrightarrow>
      reconcile token_set_ratio ais_df cg_df = Inl (KeyError ''Stock Name (CG)''))
   \<and> (''Stock Name (AIS)'' \<in> set (columns ais_df) \<and> ''Stock Name (CG)'' \<in> set (columns cg_df) \<and>
      rows ais_df \<noteq> [] \<longrightarrow>
      ''Sale Date (AIS)'' \<notin> set (columns ais_df) \<longrightarrow>
      reconcile token_set_ratio ais_df cg_df = Inl (KeyError ''Sale Date (AIS)''))
   \<and> (''Stock Name (AIS)'' \<in> set (columns ais_df) \<and> ''Stock Name (CG)'' \<in> set (columns cg_df) \<and>
      rows ais_df \<noteq> [] \<and> ''Sale Date (AIS)'' \<in> set (columns ais_df) \<longrightarrow>
      ''Quantity (CG)'' \<notin> set (columns cg_df) \<longrightarrow>
      reconcile token_set_ratio ais_df cg_df = Inl (KeyError ''Quantity (CG)''))
   \<and> (''Stock Name (AIS)'' \<in> set (columns ais_df) \<and> ''Stock Name (CG)'' \<in> set (columns cg_df) \<and>
      rows ais_df \<noteq> [] \<and> ''Sale Date (AIS)'' \<in> set (columns ais_df) \<and>
      ''Quantity (CG)'' \<in> set (columns cg_df) \<longrightarrow>
      ''Quantity (AIS)'' \<notin> set (columns ais_df) \<longrightarrow>
      reconcile token_set_ratio ais_df cg_df = Inl (KeyError ''Quantity (AIS)''))
   \<and> (''Stock Name (AIS)'' \<in> set (columns ais_df) \<and> ''Stock Name (CG)'' \<in> set (columns cg_df) \<and>
      ''Sale Date (AIS)'' \<in> set (columns ais_df) \<and>
      ''Quantity (CG)'' \<in> set (columns cg_df) \<and> ''Quantity (AIS)'' \<in> set (columns ais_df) \<and>
      (\<exists>a \<in> set (rows ais_df). sale_date a \<noteq> None) \<longrightarrow>
      ''Sale Date (CG)'' \<notin> set (columns cg_df) \<longrightarrow>
      reconcile token_set_ratio ais_df cg_df = Inl (KeyError ''Sale Date (CG)''))"
proof (intro conjI impI)
  assume "''Stock Name (AIS)'' \<notin> set (columns ais_df)"
  then show "reconcile token_set_ratio ais_df cg_df = Inl (KeyError ''Stock Name (AIS)'')"
    by (simp add: reconcile_def load_data_eq)
next
  assume "''Stock Name (AIS)'' \<in> set (columns ais_df)" "''Stock Name (CG)'' \<notin> set (columns cg_df)"
  then show "reconcile token_set_ratio ais_df cg_df = Inl (KeyError ''Stock Name (CG)'')"
    by (simp add: reconcile_def load_data_eq)
next
  assume "''Stock Name (AIS)'' \<in> set (columns ais_df) \<and> ''Stock Name (CG)'' \<in> set (columns cg_df) \<and>
      rows ais_df \<noteq> []" "''Sale Date (AIS)'' \<notin> set (columns ais_df)"
  then show "reconcile token_set_ratio ais_df cg_df = Inl (KeyError ''Sale Date (AIS)'')"
    by (simp add: reconcile_without_sale_date)
next
  assume "''Stock Name (AIS)'' \<in> set (columns ais_df) \<and> ''Stock Name (CG)'' \<in> set (columns cg_df) \<and>
      rows ais_df \<noteq> [] \<and> ''Sale Date (AIS)'' \<in> set (columns ais_df)"
    "''Quantity (CG)'' \<notin> set (columns cg_df)"
  then show "reconcile token_set_ratio ais_df cg_df = Inl (KeyError ''Quantity (CG)'')"
    by (simp add: reconcile_without_quantity)
next
  assume "''Stock Name (AIS)'' \<in> set (columns ais_df) \<and> ''Stock Name (CG)'' \<in> set (columns cg_df) \<and>
      rows ais_df \<noteq> [] \<and> ''Sale Date (AIS)'' \<in> set (columns ais_df) \<and>
      ''Quantity (CG)'' \<in> set (columns cg_df)"
    "''Quantity (AIS)'' \<notin> set (columns ais_df)"
  then show "reconcile token_set_ratio ais_df cg_df = Inl (KeyError ''Quantity (AIS)'')"
    by (simp add: reconcile_without_quantity)
next
  assume h: "''Stock Name (AIS)'' \<in> set (columns ais_df) \<and> ''Stock Name (CG)'' \<in> set (columns cg_df) \<and>
      ''Sale Date (AIS)'' \<in> set (columns ais_df) \<and>
      ''Quantity (CG)'' \<in> set (columns cg_df) \<and> ''Quantity (AIS)'' \<in> set (columns ais_df) \<and>
      (\<exists>a \<in> set (rows ais_df). sale_date a \<noteq> None)"
    and n: "''Sale Date (CG)'' \<notin> set (columns cg_df)"
  from h have "''Stock Name (AIS)'' \<in> set (columns ais_df)" "''Stock Name (CG)'' \<in> set (columns cg_df)"
    "''Quantity (CG)'' \<in> set (columns cg_df)" "''Quantity (AIS)'' \<in> set (columns ais_df)"
    "''Sale Date (AIS)'' \<in> set (columns ais_df)" "\<exists>a \<in> set (rows ais_df). sale_date a \<noteq> None"
    by blast+
  then show "reconcile token_set_ratio ais_df cg_df = Inl (KeyError ''Sale Date (CG)'')"
    using n by (rule reconcile_without_cg_sale_date)
qed

theorem required_column_failures_witness:
  "reconcile exact_ratio no_name_ais no_name_cg = Inl (KeyError ''Stock Name (AIS)'')
   \<and> reconcile exact_ratio scenario_c_ais no_name_cg = Inl (KeyError ''Stock Name (CG)'')
   \<and> reconcile exact_ratio no_date_ais scenario_c_cg = Inl (KeyError ''Sale Date (AIS)'')
   \<and> reconcile exact_ratio scenario_c_ais no_quantity_cg = Inl (KeyError ''Quantity (CG)'')
   \<and> reconcile exact_ratio no_quantity_ais scenario_c_cg = Inl (KeyError ''Quantity (AIS)'')
   \<and> reconcile exact_ratio scenario_c_ais no_date_cg = Inl (KeyError ''Sale Date (CG)'')"
proof -
  have a1: "''Stock Name (AIS)'' \<notin> set (columns no_name_ais)"
    by code_simp
  have b1: "''Stock Name (AIS)'' \<in> set (columns scenario_c_ais)"
    and b2: "''Stock Name (CG)'' \<notin> set (columns no_name_cg)"
    by code_simp+
  have c1: "''Stock Name (AIS)'' \<in> set (columns no_date_ais) \<and>
      ''Stock Name (CG)'' \<in> set (columns scenario_c_cg) \<and> rows no_date_ais \<noteq> []"
    and c2: "''Sale Date (AIS)'' \<notin> set (columns no_date_ais)"
    by code_simp+
  have d1: "''Stock Name (AIS)'' \<in> set (columns scenario_c_ais) \<and>
      ''Stock Name (CG)'' \<in> set (columns no_quantity_cg) \<and>
      rows scenario_c_ais \<noteq> [] \<and> ''Sale Date (AIS)'' \<in> set (columns scenario_c_ais)"
    and d2: "''Quantity (CG)'' \<notin> set (columns no_quantity_cg)"
    by code_simp+
  have e1: "''Stock Name (AIS)'' \<in> set (columns no_quantity_ais) \<and>
      ''Stock Name (CG)'' \<in> set (columns scenario_c_cg) \<and>
      rows no_quantity_ais \<noteq> [] \<and> ''Sale Date (AIS)'' \<in> set (columns no_quantity_ais) \<and>
      ''Quantity (CG)'' \<in> set (columns scenario_c_cg)"
    and e2: "''Quantity (AIS)'' \<notin> set (columns no_quantity_ais)"
    by code_simp+
  have f1: "''Stock Name (AIS)'' \<in> set (columns scenario_c_ais) \<and>
      ''Stock Name (CG)'' \<in> set (columns no_date_cg) \<and>
      ''Sale Date (AIS)'' \<in> set (columns scenario_c_ais) \<and>
      ''Quantity (CG)'' \<in> set (columns no_date_cg) \<and>
      ''Quantity (AIS)'' \<in> set (columns scenario_c_ais) \<and>
      (\<exists>a \<in> set (rows scenario_c_ais). sale_date a \<noteq> None)"
    and f2: "''Sale Date (CG)'' \<notin> set (columns no_date_cg)"
    by code_simp+
  have a: "reconcile exact_ratio no_name_ais no_name_cg = Inl (KeyError ''Stock Name (AIS)'')"
    using required_column_failures [of no_name_ais exact_ratio no_name_cg] a1 by blast
  have b: "reconcile exact_ratio scenario_c_ais no_name_cg = Inl (KeyError ''Stock Name (CG)'')"
    using required_column_failures [of scenario_c_ais exact_ratio no_name_cg] b1 b2 by blast
  have c: "reconcile exact_ratio no_date_ais scenario_c_cg = Inl (KeyError ''Sale Date (AIS)'')"
    using required_column_failures [of no_date_ais exact_ratio scenario_c_cg] c1 c2 by blast
  have d: "reconcile exact_ratio scenario_c_ais no_quantity_cg = Inl (KeyError ''Quantity (CG)'')"
    using required_column_failures [of scenario_c_ais exact_ratio no_quantity_cg] d1 d2 by blast
  have e: "reconcile exact_ratio no_quantity_ais scenario_c_cg = Inl (KeyError ''Quantity (AIS)'')"
    using required_column_failures [of no_quantity_ais exact_ratio scenario_c_cg] e1 e2 by blast
  have f: "reconcile exact_ratio scenario_c_ais no_date_cg = Inl (KeyError ''Sale Date (CG)'')"
    using required_column_failures [of scenario_c_ais exact_ratio no_date_cg] f1 f2 by blast
  from a b c d e f show ?thesis
    by blast
qed

end
